theory Spec2Isabelle
  imports Main
begin

section \<open>JavaScript strings\<close>

text \<open>
  A JavaScript string is a sequence of UTF-16 code units. It is modelled as a \<open>string\<close>
  (a list of \<open>char\<close>), one \<open>char\<close> per code unit, which covers the code units below 256.
\<close>

definition startsWith :: "string \<Rightarrow> string \<Rightarrow> bool" where
  "startsWith s p = (take (length p) s = p)"

fun includes_str :: "string \<Rightarrow> string \<Rightarrow> bool" where
  "includes_str [] sub = (sub = [])"
| "includes_str (c # cs) sub = (startsWith (c # cs) sub \<or> includes_str cs sub)"

text \<open>White space and line terminators of ECMAScript among the code units below 256.\<close>

definition is_space :: "char \<Rightarrow> bool" where
  "is_space c = (c \<in> set [CHR 0x09, CHR 0x0A, CHR 0x0B, CHR 0x0C, CHR 0x0D, CHR 0x20, CHR 0xA0])"

definition trim :: "string \<Rightarrow> string" where
  "trim s = rev (dropWhile is_space (rev (dropWhile is_space s)))"

section \<open>Rate limiter (security.ts)\<close>

text \<open>
  The module keeps one map from identifiers to the entry of the running window.
  \<open>Date.now()\<close> is passed in as the argument \<open>now\<close> (milliseconds); the map is passed in
  and returned updated.
\<close>

record RateLimitEntry =
  count :: int
  resetTime :: int

type_synonym rateLimitMap = "string \<rightharpoonup> RateLimitEntry"

definition checkRateLimit ::
  "string \<Rightarrow> int \<Rightarrow> int \<Rightarrow> int \<Rightarrow> rateLimitMap \<Rightarrow> bool \<times> rateLimitMap" where
  "checkRateLimit identifier maxRequests windowMs now m =
     (case m identifier of
        None \<Rightarrow> (True, m(identifier \<mapsto> \<lparr>count = 1, resetTime = now + windowMs\<rparr>))
      | Some current \<Rightarrow>
          if now > resetTime current
          then (True, m(identifier \<mapsto> \<lparr>count = 1, resetTime = now + windowMs\<rparr>))
          else if count current \<ge> maxRequests then (False, m)
          else (True, m(identifier \<mapsto> current\<lparr>count := count current + 1\<rparr>)))"

text \<open>A sequence of calls for one identifier, one call per clock reading, in order.\<close>

fun checkRateLimit_calls ::
  "string \<Rightarrow> int \<Rightarrow> int \<Rightarrow> int list \<Rightarrow> rateLimitMap \<Rightarrow> bool list \<times> rateLimitMap" where
  "checkRateLimit_calls identifier maxRequests windowMs [] m = ([], m)"
| "checkRateLimit_calls identifier maxRequests windowMs (t # ts) m =
     (case checkRateLimit identifier maxRequests windowMs t m of
        (r, m') \<Rightarrow>
          (case checkRateLimit_calls identifier maxRequests windowMs ts m' of
             (rs, m'') \<Rightarrow> (r # rs, m'')))"

text \<open>An identifier has a live entry at \<open>now\<close> when its window has not expired.\<close>

definition live_entry :: "rateLimitMap \<Rightarrow> string \<Rightarrow> int \<Rightarrow> bool" where
  "live_entry m identifier now =
     (case m identifier of None \<Rightarrow> False | Some e \<Rightarrow> \<not> now > resetTime e)"

text \<open>\<open>cleanupRateLimit\<close>: the sweep removes every expired entry.\<close>

definition cleanupRateLimit :: "int \<Rightarrow> rateLimitMap \<Rightarrow> rateLimitMap" where
  "cleanupRateLimit now m =
     (\<lambda>k. case m k of None \<Rightarrow> None
              | Some v \<Rightarrow> if now > resetTime v then None else Some v)"

section \<open>Audit log (security.ts)\<close>

datatype severity = Low | Medium | High | Critical

text \<open>
  The argument of \<open>logSecurityEvent\<close> is a \<open>SecurityEvent\<close> without its timestamp; the
  values of \<open>details\<close> used in this program are strings or \<open>undefined\<close>. The timestamp is
  kept as the clock reading it is formatted from.
\<close>

record SecurityEventInput =
  event :: string
  "identifier" :: string
  details :: "(string \<times> string option) list"
  severity :: severity

record SecurityEvent = SecurityEventInput +
  timestamp :: int

definition stamp :: "int \<Rightarrow> SecurityEventInput \<Rightarrow> SecurityEvent" where
  "stamp now ev =
     \<lparr>event = event ev, identifier = identifier ev, details = details ev,
      severity = severity ev, timestamp = now\<rparr>"

text \<open>
  Arrays and event objects are reached through references: two arrays may hold the same
  object, and two variables the same array. The store maps the address of each event object
  to its fields and the address of each array to the references in its slots, in order;
  \<open>nextAddr\<close> is the next address to hand out. \<open>securityLog\<close> is the address of the module's
  array, allocated when the module is loaded.
\<close>

type_synonym addr = nat

record heap =
  objects :: "addr \<rightharpoonup> SecurityEvent"
  arrays :: "addr \<rightharpoonup> addr list"
  nextAddr :: addr

definition securityLog :: addr where
  "securityLog = 0"

definition initial_heap :: heap where
  "initial_heap =
     \<lparr>objects = Map.empty, arrays = [securityLog \<mapsto> []], nextAddr = Suc securityLog\<rparr>"

definition array_refs :: "addr \<Rightarrow> heap \<Rightarrow> addr list" where
  "array_refs a h = (case arrays h a of None \<Rightarrow> [] | Some refs \<Rightarrow> refs)"

text \<open>The events read through a list of references, slot by slot.\<close>

fun events_of :: "(addr \<rightharpoonup> SecurityEvent) \<Rightarrow> addr list \<Rightarrow> SecurityEvent list" where
  "events_of objs [] = []"
| "events_of objs (r # refs) =
     (case objs r of None \<Rightarrow> events_of objs refs | Some e \<Rightarrow> e # events_of objs refs)"

definition array_contents :: "addr \<Rightarrow> heap \<Rightarrow> SecurityEvent list" where
  "array_contents a h = events_of (objects h) (array_refs a h)"

text \<open>
  Any in-place change of the array at one address (push, shift, splice, assignment to a
  slot or to \<open>length\<close>): it replaces the references the array holds.
\<close>

definition array_mutate :: "addr \<Rightarrow> (addr list \<Rightarrow> addr list) \<Rightarrow> heap \<Rightarrow> heap" where
  "array_mutate a f h =
     (case arrays h a of None \<Rightarrow> h | Some refs \<Rightarrow> h\<lparr>arrays := (arrays h)(a \<mapsto> f refs)\<rparr>)"

definition array_push :: "addr \<Rightarrow> addr \<Rightarrow> heap \<Rightarrow> heap" where
  "array_push a r h = array_mutate a (\<lambda>refs. refs @ [r]) h"

definition array_shift :: "addr \<Rightarrow> heap \<Rightarrow> heap" where
  "array_shift a h = array_mutate a tl h"

text \<open>
  An assignment to a field of the object in slot \<open>i\<close> of the array at \<open>a\<close>
  (\<open>a[i].field = value\<close>): it changes the object the slot refers to.
\<close>

definition element_write :: "addr \<Rightarrow> nat \<Rightarrow> (SecurityEvent \<Rightarrow> SecurityEvent) \<Rightarrow> heap \<Rightarrow> heap" where
  "element_write a i f h =
     (if i < length (array_refs a h)
      then (case objects h (array_refs a h ! i) of
              None \<Rightarrow> h
            | Some e \<Rightarrow> h\<lparr>objects := (objects h)(array_refs a h ! i \<mapsto> f e)\<rparr>)
      else h)"

text \<open>
  \<open>logSecurityEvent\<close> creates the object \<open>{...event, timestamp}\<close>, pushes it, and shifts
  the array once if it then holds more than 1000 entries.
\<close>

definition logSecurityEvent :: "SecurityEventInput \<Rightarrow> int \<Rightarrow> heap \<Rightarrow> heap" where
  "logSecurityEvent ev now h =
     (let r = nextAddr h;
          h1 = h\<lparr>objects := (objects h)(r \<mapsto> stamp now ev), nextAddr := Suc r\<rparr>;
          h2 = array_push securityLog r h1
      in if length (array_refs securityLog h2) > 1000
         then array_shift securityLog h2
         else h2)"

text \<open>
  \<open>[...securityLog]\<close> allocates a new array whose slots hold the same references, in the
  same order: the event objects are not copied.
\<close>

definition getSecurityLog :: "heap \<Rightarrow> addr \<times> heap" where
  "getSecurityLog h =
     (nextAddr h,
      h\<lparr>arrays := (arrays h)(nextAddr h \<mapsto> array_refs securityLog h),
        nextAddr := Suc (nextAddr h)\<rparr>)"

text \<open>A sequence of appends, each with its clock reading, in order.\<close>

fun log_events :: "(SecurityEventInput \<times> int) list \<Rightarrow> heap \<Rightarrow> heap" where
  "log_events [] h = h"
| "log_events ((ev, now) # evs) h = log_events evs (logSecurityEvent ev now h)"

text \<open>
  The store is well formed when the module's array exists and every reference in it is an
  address already handed out, of an existing object.
\<close>

definition wf_heap :: "heap \<Rightarrow> bool" where
  "wf_heap h =
     (securityLog < nextAddr h \<and>
      (case arrays h securityLog of
         None \<Rightarrow> False
       | Some refs \<Rightarrow> list_all (\<lambda>r. r < nextAddr h \<and> objects h r \<noteq> None) refs))"

section \<open>Middleware (middleware.ts)\<close>

record SecurityConfig =
  enableAuth :: bool
  apiKey :: "string option"
  enableRateLimit :: bool
  maxRequestsPerMinute :: int
  enableRequestLogging :: bool
  trustedOrigins :: "string list"

record Request =
  url :: string
  headers :: "string \<rightharpoonup> string"
  ip :: "string option"
  httpMethod :: string
  requestId :: string

record ErrorBody =
  error :: string
  message :: string
  retryAfter :: "int option"

text \<open>
  The reply: its status code, the headers set so far, and the body once \<open>send\<close> has been
  called (\<open>reply.sent\<close> is \<open>payload \<noteq> None\<close>).
\<close>

record Reply =
  statusCode :: nat
  replyHeaders :: "string \<rightharpoonup> string"
  payload :: "ErrorBody option"

record LogLine =
  logMethod :: string
  logUrl :: string
  logUserAgent :: "string option"
  logIp :: string
  logRequestId :: string
  logMsg :: string

text \<open>Everything a hook can read or change besides the request.\<close>

record GateState =
  reply :: Reply
  limits :: rateLimitMap
  store :: heap
  requestLog :: "LogLine list"

definition reply_header :: "string \<Rightarrow> string \<Rightarrow> GateState \<Rightarrow> GateState" where
  "reply_header k v s = s\<lparr>reply := (reply s)\<lparr>replyHeaders := (replyHeaders (reply s))(k \<mapsto> v)\<rparr>\<rparr>"

definition reply_status_send :: "nat \<Rightarrow> ErrorBody \<Rightarrow> GateState \<Rightarrow> GateState" where
  "reply_status_send code body s = s\<lparr>reply := (reply s)\<lparr>statusCode := code, payload := Some body\<rparr>\<rparr>"

definition log_event :: "SecurityEventInput \<Rightarrow> int \<Rightarrow> GateState \<Rightarrow> GateState" where
  "log_event ev now s = s\<lparr>store := logSecurityEvent ev now (store s)\<rparr>"

definition sent :: "GateState \<Rightarrow> bool" where
  "sent s = (payload (reply s) \<noteq> None)"

definition getClientIP :: "Request \<Rightarrow> string" where
  "getClientIP request =
     (case headers request ''x-forwarded-for'' of
        Some forwarded \<Rightarrow> trim (takeWhile (\<lambda>c. c \<noteq> CHR '','') forwarded)
      | None \<Rightarrow>
          (case headers request ''x-real-ip'' of
             Some realIp \<Rightarrow> realIp
           | None \<Rightarrow> (case ip request of Some a \<Rightarrow> a | None \<Rightarrow> ''unknown'')))"

definition authMiddleware ::
  "Request \<Rightarrow> 'a SecurityConfig_scheme \<Rightarrow> int \<Rightarrow> GateState \<Rightarrow> GateState" where
  "authMiddleware request config now s =
     (if \<not> enableAuth config \<or> \<not> startsWith (url request) ''/mcp'' then s
      else
        let authHeader = headers request ''authorization'';
            missing =
              (case authHeader of None \<Rightarrow> True
               | Some h \<Rightarrow> h = [] \<or> \<not> startsWith h ''Bearer '')
        in if missing then
             reply_status_send 401
               \<lparr>error = ''Unauthorized'',
                message = ''Missing or invalid authorization header'',
                retryAfter = None\<rparr>
               (log_event
                  \<lparr>event = ''authentication_failed'',
                   identifier = getClientIP request,
                   details = [(''url'', Some (url request)),
                              (''userAgent'', headers request ''user-agent''),
                              (''reason'', Some ''missing_or_invalid_header'')],
                   severity = Medium\<rparr> now s)
           else
             let token = map_option (drop 7) authHeader
             in if token \<noteq> apiKey config then
                  reply_status_send 403
                    \<lparr>error = ''Forbidden'', message = ''Invalid API key'', retryAfter = None\<rparr>
                    (log_event
                       \<lparr>event = ''authentication_failed'',
                        identifier = getClientIP request,
                        details = [(''url'', Some (url request)),
                                   (''userAgent'', headers request ''user-agent''),
                                   (''reason'', Some ''invalid_token'')],
                        severity = High\<rparr> now s)
                else s)"

definition rateLimitMiddleware ::
  "Request \<Rightarrow> 'a SecurityConfig_scheme \<Rightarrow> int \<Rightarrow> GateState \<Rightarrow> GateState" where
  "rateLimitMiddleware request config now s =
     (if \<not> enableRateLimit config then s
      else
        let clientIP = getClientIP request
        in case checkRateLimit clientIP (maxRequestsPerMinute config) 60000 now (limits s) of
             (allowed, m) \<Rightarrow>
               let s1 = s\<lparr>limits := m\<rparr>
               in if \<not> allowed then
                    reply_status_send 429
                      \<lparr>error = ''Too Many Requests'',
                       message = ''Rate limit exceeded. Please try again later.'',
                       retryAfter = Some 60\<rparr>
                      (log_event
                         \<lparr>event = ''rate_limit_exceeded'',
                          identifier = clientIP,
                          details = [(''url'', Some (url request)),
                                     (''userAgent'', headers request ''user-agent'')],
                          severity = Medium\<rparr> now s1)
                  else s1)"

definition corsMiddleware ::
  "Request \<Rightarrow> 'a SecurityConfig_scheme \<Rightarrow> int \<Rightarrow> GateState \<Rightarrow> GateState" where
  "corsMiddleware request config now s =
     (let origin = headers request ''origin''
      in if \<not> startsWith (url request) ''/mcp'' then s
         else
           let allow = (\<lambda>s'.
                 reply_header ''Access-Control-Allow-Headers'' ''Content-Type, Authorization''
                   (reply_header ''Access-Control-Allow-Methods'' ''GET, POST, OPTIONS''
                      (reply_header ''Access-Control-Allow-Credentials'' ''true'' s')))
           in case origin of
                None \<Rightarrow> allow s
              | Some orig \<Rightarrow>
                  if orig \<noteq> [] \<and> length (trustedOrigins config) > 0 then
                    if orig \<in> set (trustedOrigins config)
                    then allow (reply_header ''Access-Control-Allow-Origin'' orig s)
                    else
                      reply_status_send 403
                        \<lparr>error = ''Forbidden'', message = ''Origin not allowed'', retryAfter = None\<rparr>
                        (log_event
                           \<lparr>event = ''untrusted_origin_blocked'',
                            identifier = getClientIP request,
                            details = [(''origin'', Some orig), (''url'', Some (url request))],
                            severity = Medium\<rparr> now s)
                  else allow s)"

definition requestLoggingMiddleware ::
  "Request \<Rightarrow> 'a SecurityConfig_scheme \<Rightarrow> GateState \<Rightarrow> GateState" where
  "requestLoggingMiddleware request config s =
     (if \<not> enableRequestLogging config then s
      else s\<lparr>requestLog := requestLog s @
             [\<lparr>logMethod = httpMethod request, logUrl = url request,
               logUserAgent = headers request ''user-agent'', logIp = getClientIP request,
               logRequestId = requestId request, logMsg = ''Incoming request''\<rparr>]\<rparr>)"

definition csp_value :: string where
  "csp_value =
     ''default-src 'self'; '' @ ''script-src 'self'; '' @
     ''style-src 'self' 'unsafe-inline'; '' @ ''img-src 'self' data:; '' @
     ''font-src 'self'; '' @ ''connect-src 'self'; '' @ ''frame-ancestors 'none';''"

definition cspMiddleware :: "Request \<Rightarrow> GateState \<Rightarrow> GateState" where
  "cspMiddleware request s =
     reply_header ''Referrer-Policy'' ''strict-origin-when-cross-origin''
       (reply_header ''X-XSS-Protection'' ''1; mode=block''
          (reply_header ''X-Frame-Options'' ''DENY''
             (reply_header ''X-Content-Type-Options'' ''nosniff''
                (reply_header ''Content-Security-Policy'' csp_value s))))"

text \<open>
  \<open>registerSecurityMiddleware\<close> adds five \<open>onRequest\<close> hooks to the application, in this
  order. (It also starts the timer that calls \<open>cleanupRateLimit\<close> every five minutes.)
\<close>

type_synonym hook = "Request \<Rightarrow> int \<Rightarrow> GateState \<Rightarrow> GateState"

definition registerSecurityMiddleware :: "'a SecurityConfig_scheme \<Rightarrow> hook list" where
  "registerSecurityMiddleware config =
     [\<lambda>request now. cspMiddleware request,
      \<lambda>request now. requestLoggingMiddleware request config,
      \<lambda>request now. corsMiddleware request config now,
      \<lambda>request now. rateLimitMiddleware request config now,
      \<lambda>request now. authMiddleware request config now]"

text \<open>
  Modelled from the spec: the runner of the \<open>onRequest\<close> hooks and the hand-over to the
  protocol dispatcher belong to the web framework, which is not under src/. Following the
  spec (section 4.6), the hooks run in the order they were added, a hook runs only while no
  reply has been sent, and the dispatcher runs only if no hook sent one.
\<close>

fun runHooks :: "hook list \<Rightarrow> Request \<Rightarrow> int \<Rightarrow> GateState \<Rightarrow> GateState" where
  "runHooks [] request now s = s"
| "runHooks (h # hs) request now s =
     (if sent s then s else runHooks hs request now (h request now s))"

definition handleRequest ::
  "hook list \<Rightarrow> (Request \<Rightarrow> GateState \<Rightarrow> GateState) \<Rightarrow> Request \<Rightarrow> int \<Rightarrow> GateState \<Rightarrow> GateState" where
  "handleRequest hooks dispatch request now s =
     (let s' = runHooks hooks request now s
      in if sent s' then s' else dispatch request s')"


section \<open>Path and URL validators (security.ts)\<close>

datatype url_error = ParseFailed | SchemeNotAllowed string | PrivateUrlNotAllowed

datatype error =
    InputTooLong int
  | DangerousInput
  | InvalidFilePath
  | PathTraversalDetected
  | InvalidPathCharacters
  | InvalidUrl url_error

text \<open>
  \<open>String.prototype.normalize()\<close> returns the Unicode normal form NFC of its receiver. A string
  whose code units are all below 256 is in that form already.
\<close>

definition normalize :: "string \<Rightarrow> string" where
  "normalize s = s"

text \<open>\<open>SAFE_PATH_PATTERN = /^[a-zA-Z0-9._/-]+$/\<close>, used through \<open>test\<close>.\<close>

definition safe_path_char :: "char \<Rightarrow> bool" where
  "safe_path_char c =
     (c \<in> set ''abcdefghijklmnopqrstuvwxyz'' \<or> c \<in> set ''ABCDEFGHIJKLMNOPQRSTUVWXYZ'' \<or>
      c \<in> set ''0123456789'' \<or> c \<in> set ''._/-'')"

definition SAFE_PATH_PATTERN :: "string \<Rightarrow> bool" where
  "SAFE_PATH_PATTERN s = (s \<noteq> [] \<and> list_all safe_path_char s)"

definition validateFilePath :: "string \<Rightarrow> error + string" where
  "validateFilePath path =
     (if path = [] then Inl InvalidFilePath
      else
        let normalizedPath = normalize path
        in if includes_str normalizedPath ''..'' \<or> includes_str normalizedPath ''~''
           then Inl PathTraversalDetected
           else if \<not> SAFE_PATH_PATTERN normalizedPath then Inl InvalidPathCharacters
           else Inr normalizedPath)"

text \<open>
  The fields of a parsed \<open>URL\<close> that the program reads. The URL parser (\<open>new URL(url)\<close>) is
  part of the runtime; \<open>validateUrl\<close> takes it as the parameter \<open>parse\<close>, which returns
  \<open>None\<close> where the constructor throws. Every error raised inside the \<open>try\<close> block is caught
  and raised again as an \<open>Invalid URL\<close> error.
\<close>

record URL =
  href :: string
  protocol :: string
  hostname :: string

definition validateUrl :: "(string \<Rightarrow> URL option) \<Rightarrow> string \<Rightarrow> string list \<Rightarrow> error + URL" where
  "validateUrl parse address allowedSchemes =
     (case parse address of
        None \<Rightarrow> Inl (InvalidUrl ParseFailed)
      | Some parsed \<Rightarrow>
          if \<not> (remove1 (CHR '':'') (protocol parsed) \<in> set allowedSchemes)
          then Inl (InvalidUrl (SchemeNotAllowed (protocol parsed)))
          else if hostname parsed = ''localhost'' \<or>
                  hostname parsed = ''127.0.0.1'' \<or>
                  startsWith (hostname parsed) ''192.168.'' \<or>
                  startsWith (hostname parsed) ''10.'' \<or>
                  startsWith (hostname parsed) ''172.''
          then Inl (InvalidUrl PrivateUrlNotAllowed)
          else Inr parsed)"

section \<open>Input sanitizer (security.ts)\<close>

text \<open>
  The five regular expressions of \<open>DANGEROUS_PATTERNS\<close> have three shapes: a character
  class, a list of keywords between word boundaries matched without regard to case, and a
  list of literal alternatives.
\<close>

datatype regex =
    CharClass string
  | Keywords "string list"
  | Alternatives "string list"

text \<open>\<open>\w\<close> is \<open>[A-Za-z0-9_]\<close>.\<close>

definition is_word :: "char \<Rightarrow> bool" where
  "is_word c =
     (c \<in> set ''abcdefghijklmnopqrstuvwxyz'' \<or> c \<in> set ''ABCDEFGHIJKLMNOPQRSTUVWXYZ'' \<or>
      c \<in> set ''0123456789'' \<or> c = CHR ''_'')"

text \<open>
  Under the \<open>i\<close> flag two code units match when their upper-case forms agree. The keywords
  are ASCII letters, and no code unit of 128 or above has an ASCII upper-case form, so only
  the ASCII letters need folding.
\<close>

definition ascii_upper :: "char \<Rightarrow> char" where
  "ascii_upper c =
     (case map_of (zip ''abcdefghijklmnopqrstuvwxyz'' ''ABCDEFGHIJKLMNOPQRSTUVWXYZ'') c of
        None \<Rightarrow> c
      | Some u \<Rightarrow> u)"

text \<open>\<open>\b\<close> at index \<open>i\<close>: exactly one of the code units before and after \<open>i\<close> is a word character.\<close>

definition word_boundary :: "string \<Rightarrow> nat \<Rightarrow> bool" where
  "word_boundary s i =
     ((0 < i \<and> i - 1 < length s \<and> is_word (s ! (i - 1))) \<noteq> (i < length s \<and> is_word (s ! i)))"

text \<open>
  A match that starts at index \<open>i\<close>, as the index where it ends. Alternatives are tried in
  the order written; for keywords the closing \<open>\b\<close> is part of the attempt.
\<close>

fun match_at :: "regex \<Rightarrow> string \<Rightarrow> nat \<Rightarrow> nat option" where
  "match_at (CharClass cs) s i = (if i < length s \<and> s ! i \<in> set cs then Some (Suc i) else None)"
| "match_at (Alternatives alts) s i =
     map_option (\<lambda>a. i + length a) (List.find (\<lambda>a. startsWith (drop i s) a) alts)"
| "match_at (Keywords ks) s i =
     (if word_boundary s i
      then map_option (\<lambda>k. i + length k)
             (List.find (\<lambda>k. startsWith (map ascii_upper (drop i s)) (map ascii_upper k) \<and>
                              word_boundary s (i + length k)) ks)
      else None)"

text \<open>The leftmost match that starts at index \<open>i\<close> or later.\<close>

definition regexp_exec :: "regex \<Rightarrow> string \<Rightarrow> nat \<Rightarrow> nat option" where
  "regexp_exec p s i =
     (case List.find (\<lambda>j. match_at p s j \<noteq> None) [i..<Suc (length s)] of
        None \<Rightarrow> None
      | Some j \<Rightarrow> match_at p s j)"

text \<open>
  A \<open>RegExp\<close> object with the \<open>g\<close> flag carries \<open>lastIndex\<close>. \<open>test\<close> starts the search
  there; a match stores the index where it ends, a failure stores 0. The five objects are
  created once, when the module is loaded, with \<open>lastIndex = 0\<close>.
\<close>

record RegExp =
  pattern :: regex
  lastIndex :: nat

definition regexp_test :: "RegExp \<Rightarrow> string \<Rightarrow> bool \<times> RegExp" where
  "regexp_test r s =
     (if lastIndex r > length s then (False, r\<lparr>lastIndex := 0\<rparr>)
      else (case regexp_exec (pattern r) s (lastIndex r) of
              None \<Rightarrow> (False, r\<lparr>lastIndex := 0\<rparr>)
            | Some e \<Rightarrow> (True, r\<lparr>lastIndex := e\<rparr>)))"

definition DANGEROUS_PATTERNS :: "RegExp list" where
  "DANGEROUS_PATTERNS =
     [\<lparr>pattern = CharClass [CHR '';'', CHR ''&'', CHR ''|'', CHR 0x60, CHR ''$'', CHR ''('',
                             CHR '')'', CHR ''{'', CHR ''}'', CHR ''['', CHR '']'', CHR 0x5C],
       lastIndex = 0\<rparr>,
      \<lparr>pattern = Keywords [''eval'', ''exec'', ''system'', ''spawn'', ''fork''], lastIndex = 0\<rparr>,
      \<lparr>pattern = Keywords [''rm'', ''del'', ''format'', ''shutdown'', ''reboot''], lastIndex = 0\<rparr>,
      \<lparr>pattern = Alternatives [''../'', [CHR ''.'', CHR ''.'', CHR 0x5C]], lastIndex = 0\<rparr>,
      \<lparr>pattern = Alternatives [''<'', ''>''], lastIndex = 0\<rparr>]"

text \<open>
  The loop over the patterns: it stops at the first pattern whose \<open>test\<close> succeeds; the
  patterns tested so far have a new \<open>lastIndex\<close>, the others keep theirs.
\<close>

fun test_patterns :: "RegExp list \<Rightarrow> string \<Rightarrow> bool \<times> RegExp list" where
  "test_patterns [] s = (False, [])"
| "test_patterns (r # rs) s =
     (case regexp_test r s of
        (True, r') \<Rightarrow> (True, r' # rs)
      | (False, r') \<Rightarrow>
          (case test_patterns rs s of (found, rs') \<Rightarrow> (found, r' # rs')))"

text \<open>
  \<open>sanitizeInput\<close> reads and updates the pattern objects, which are passed in and returned.
  The final \<open>replace\<close> keeps word characters, white space, \<open>.\<close> and \<open>-\<close>.
\<close>

definition sanitizeInput :: "string \<Rightarrow> int \<Rightarrow> RegExp list \<Rightarrow> (error + string) \<times> RegExp list" where
  "sanitizeInput input maxLength patterns =
     (if int (length input) > maxLength then (Inl (InputTooLong maxLength), patterns)
      else (case test_patterns patterns input of
              (True, patterns') \<Rightarrow> (Inl DangerousInput, patterns')
            | (False, patterns') \<Rightarrow>
                (Inr (trim (filter (\<lambda>c. is_word c \<or> is_space c \<or> c = CHR ''.'' \<or> c = CHR ''-'')
                              input)),
                 patterns')))"

text \<open>Consecutive calls on the same module, each with its own input.\<close>

fun sanitizeInput_calls :: "string list \<Rightarrow> int \<Rightarrow> RegExp list \<Rightarrow> (error + string) list" where
  "sanitizeInput_calls [] maxLength patterns = []"
| "sanitizeInput_calls (input # inputs) maxLength patterns =
     (case sanitizeInput input maxLength patterns of
        (result, patterns') \<Rightarrow> result # sanitizeInput_calls inputs maxLength patterns')"

section \<open>Startup configuration (config.ts)\<close>

text \<open>
  \<open>process.env\<close> is a map from variable names to strings. \<open>Number(value)\<close> is the runtime's
  conversion, taken as the parameter \<open>toNumber\<close> (\<open>None\<close> for \<open>NaN\<close>); the numbers of the
  configuration are modelled as integers. \<open>package.json\<close> supplies \<open>version\<close> and \<open>name\<close>.
\<close>

datatype config_error =
    RequiredEnv string
  | NotANumber string string
  | InvalidNodeEnv string
  | InvalidLogLevel string
  | InvalidPort int

record PackageJson =
  pkgVersion :: string
  pkgName :: string

record Config = SecurityConfig +
  port :: int
  host :: string
  nodeEnv :: string
  logLevel :: string
  mcpEndpoint :: string
  healthEndpoint :: string
  version :: string
  name :: string

definition getEnvVar :: "(string \<rightharpoonup> string) \<Rightarrow> string \<Rightarrow> string option \<Rightarrow> config_error + string" where
  "getEnvVar env key defaultValue =
     (case env key of
        None \<Rightarrow> (case defaultValue of None \<Rightarrow> Inl (RequiredEnv key) | Some d \<Rightarrow> Inr d)
      | Some v \<Rightarrow> Inr v)"

definition getEnvNumber ::
  "(string \<Rightarrow> int option) \<Rightarrow> (string \<rightharpoonup> string) \<Rightarrow> string \<Rightarrow> int \<Rightarrow> config_error + int" where
  "getEnvNumber toNumber env key defaultValue =
     (case env key of
        None \<Rightarrow> Inr defaultValue
      | Some v \<Rightarrow> (case toNumber v of None \<Rightarrow> Inl (NotANumber key v) | Some parsed \<Rightarrow> Inr parsed))"

text \<open>\<open>s.split(",")\<close>: the pieces between the separators; the empty string gives one empty piece.\<close>

fun split_on :: "char \<Rightarrow> string \<Rightarrow> string list" where
  "split_on sep [] = [[]]"
| "split_on sep (c # cs) =
     (if c = sep then [] # split_on sep cs
      else (case split_on sep cs of
              [] \<Rightarrow> [[c]]
            | piece # pieces \<Rightarrow> (c # piece) # pieces))"

text \<open>
  Every call of \<open>getEnvVar\<close> in \<open>createConfig\<close> passes a default value, so it returns a
  string there (\<open>env_or\<close>). What can fail are the two conversions and the three validations,
  in this order: \<open>NODE_ENV\<close>, \<open>PORT\<close> as a number, \<open>MAX_REQUESTS_PER_MINUTE\<close> as a number,
  \<open>LOG_LEVEL\<close>, the port range.
\<close>

definition env_or :: "(string \<rightharpoonup> string) \<Rightarrow> string \<Rightarrow> string \<Rightarrow> string" where
  "env_or env key d = (case getEnvVar env key (Some d) of Inl e \<Rightarrow> d | Inr v \<Rightarrow> v)"

definition createConfig ::
  "(string \<Rightarrow> int option) \<Rightarrow> PackageJson \<Rightarrow> (string \<rightharpoonup> string) \<Rightarrow> config_error + Config" where
  "createConfig toNumber packageJson env =
     (let nodeEnv' = env_or env ''NODE_ENV'' ''development''
      in if nodeEnv' \<notin> set [''development'', ''production'', ''test'']
         then Inl (InvalidNodeEnv nodeEnv')
         else
           case getEnvNumber toNumber env ''PORT'' 8080 of
             Inl e \<Rightarrow> Inl e
           | Inr port' \<Rightarrow>
               (case getEnvNumber toNumber env ''MAX_REQUESTS_PER_MINUTE'' 100 of
                  Inl e \<Rightarrow> Inl e
                | Inr maxRequests \<Rightarrow>
                    let config =
                      \<lparr>enableAuth = (env_or env ''ENABLE_AUTH'' ''false'' = ''true''),
                       apiKey = env ''API_KEY'',
                       enableRateLimit = (env_or env ''ENABLE_RATE_LIMIT'' ''true'' = ''true''),
                       maxRequestsPerMinute = maxRequests,
                       enableRequestLogging =
                         (env_or env ''ENABLE_REQUEST_LOGGING'' ''true'' = ''true''),
                       trustedOrigins =
                         filter (\<lambda>s. s \<noteq> [])
                           (split_on (CHR '','') (env_or env ''TRUSTED_ORIGINS'' [])),
                       port = port',
                       host = env_or env ''HOST'' ''localhost'',
                       nodeEnv = nodeEnv',
                       logLevel =
                         env_or env ''LOG_LEVEL''
                           (if nodeEnv' = ''production'' then ''info'' else ''debug''),
                       mcpEndpoint = env_or env ''MCP_ENDPOINT'' ''/mcp'',
                       healthEndpoint = env_or env ''HEALTH_ENDPOINT'' ''/health'',
                       version = pkgVersion packageJson,
                       name = pkgName packageJson\<rparr>
                    in if logLevel config \<notin>
                            set [''trace'', ''debug'', ''info'', ''warn'', ''error'', ''fatal'']
                       then Inl (InvalidLogLevel (logLevel config))
                       else if port config < 1 \<or> port config > 65535
                       then Inl (InvalidPort (port config))
                       else Inr config))"

section \<open>Example values\<close>

definition example_event :: SecurityEventInput where
  "example_event =
     \<lparr>event = ''authentication_failed'', identifier = ''203.0.113.9'',
      details = [(''reason'', Some ''invalid_token'')], severity = High\<rparr>"

text \<open>A full log: 1000 events with the timestamps 1 to 1000, oldest first.\<close>

definition full_heap :: heap where
  "full_heap =
     \<lparr>objects = (\<lambda>r. if 1 \<le> r \<and> r < 1001 then Some (stamp (int r) example_event) else None),
      arrays = [securityLog \<mapsto> [1..<1001]],
      nextAddr = 1001\<rparr>"

text \<open>A log of one event, and an assignment to its \<open>event\<close> field.\<close>

definition one_event_heap :: heap where
  "one_event_heap = logSecurityEvent example_event 1 initial_heap"

definition tamper :: "SecurityEvent \<Rightarrow> SecurityEvent" where
  "tamper e = e\<lparr>event := ''tampered''\<rparr>"

definition initial_state :: GateState where
  "initial_state =
     \<lparr>reply = \<lparr>statusCode = 200, replyHeaders = Map.empty, payload = None\<rparr>,
      limits = Map.empty, store = initial_heap, requestLog = []\<rparr>"

definition example_config :: SecurityConfig where
  "example_config =
     \<lparr>enableAuth = True, apiKey = Some ''secret123'', enableRateLimit = True,
      maxRequestsPerMinute = 100, enableRequestLogging = True,
      trustedOrigins = [''https://a.com'']\<rparr>"

definition example_request :: "string \<Rightarrow> (string \<rightharpoonup> string) \<Rightarrow> Request" where
  "example_request path hdrs =
     \<lparr>url = path, headers = hdrs, ip = Some ''203.0.113.9'', httpMethod = ''POST'',
      requestId = ''req-1''\<rparr>"

definition evil_request :: Request where
  "evil_request = example_request ''/mcp'' [''origin'' \<mapsto> ''https://evil.com'']"

text \<open>What the URL parser returns on the example URLs.\<close>

definition example_parser :: "string \<Rightarrow> URL option" where
  "example_parser address =
     (if address = ''ftp://example.com''
      then Some \<lparr>href = ''ftp://example.com/'', protocol = ''ftp:'', hostname = ''example.com''\<rparr>
      else if address = ''https://127.0.0.1/x''
      then Some \<lparr>href = ''https://127.0.0.1/x'', protocol = ''https:'', hostname = ''127.0.0.1''\<rparr>
      else if address = ''https://192.168.1.5/x''
      then Some \<lparr>href = ''https://192.168.1.5/x'', protocol = ''https:'', hostname = ''192.168.1.5''\<rparr>
      else if address = ''https://example.com/x''
      then Some \<lparr>href = ''https://example.com/x'', protocol = ''https:'', hostname = ''example.com''\<rparr>
      else None)"

definition example_package :: PackageJson where
  "example_package = \<lparr>pkgVersion = ''1.0.0'', pkgName = ''fastify-mcp-server-boilerplate''\<rparr>"

definition no_number :: "string \<Rightarrow> int option" where
  "no_number s = None"

definition example_number :: "string \<Rightarrow> int option" where
  "example_number s = (if s = ''3000'' then Some 3000 else None)"

section \<open>Lemmas\<close>

subsection \<open>Lemmas on the rate limiter\<close>

lemma checkRateLimit_fresh:
  "\<not> live_entry m ident now \<Longrightarrow>
   checkRateLimit ident maxRequests windowMs now m =
     (True, m(ident \<mapsto> \<lparr>count = 1, resetTime = now + windowMs\<rparr>))"
  by (cases "m ident") (simp_all add: checkRateLimit_def live_entry_def)

lemma checkRateLimit_below:
  "m ident = Some \<lparr>count = c, resetTime = r\<rparr> \<Longrightarrow> now \<le> r \<Longrightarrow> c < maxRequests \<Longrightarrow>
   checkRateLimit ident maxRequests windowMs now m =
     (True, m(ident \<mapsto> \<lparr>count = c + 1, resetTime = r\<rparr>))"
  by (simp add: checkRateLimit_def)

lemma checkRateLimit_full:
  "m ident = Some \<lparr>count = c, resetTime = r\<rparr> \<Longrightarrow> now \<le> r \<Longrightarrow> maxRequests \<le> c \<Longrightarrow>
   checkRateLimit ident maxRequests windowMs now m = (False, m)"
  by (simp add: checkRateLimit_def)

lemma calls_within_window:
  "m ident = Some \<lparr>count = c, resetTime = r\<rparr> \<Longrightarrow> \<forall>t\<in>set ts. t \<le> r \<Longrightarrow>
   c + int (length ts) \<le> maxRequests \<Longrightarrow>
   fst (checkRateLimit_calls ident maxRequests windowMs ts m) = replicate (length ts) True \<and>
   snd (checkRateLimit_calls ident maxRequests windowMs ts m) ident =
     Some \<lparr>count = c + int (length ts), resetTime = r\<rparr>"
proof (induction ts arbitrary: m c)
  case Nil
  then show ?case by simp
next
  case (Cons t ts)
  let ?m' = "m(ident \<mapsto> \<lparr>count = c + 1, resetTime = r\<rparr>)"
  from Cons.prems have step:
    "checkRateLimit ident maxRequests windowMs t m = (True, ?m')"
    by (intro checkRateLimit_below) auto
  have "?m' ident = Some \<lparr>count = c + 1, resetTime = r\<rparr>" by simp
  moreover from Cons.prems have "\<forall>t\<in>set ts. t \<le> r" by simp
  moreover from Cons.prems have "(c + 1) + int (length ts) \<le> maxRequests" by simp
  ultimately have IH:
    "fst (checkRateLimit_calls ident maxRequests windowMs ts ?m') = replicate (length ts) True \<and>
     snd (checkRateLimit_calls ident maxRequests windowMs ts ?m') ident =
       Some \<lparr>count = (c + 1) + int (length ts), resetTime = r\<rparr>"
    by (rule Cons.IH)
  show ?case using step IH by (simp add: split_beta add.assoc add.commute)
qed

subsection \<open>Lemmas on the audit log\<close>

lemma events_of_append: "events_of objs (xs @ ys) = events_of objs xs @ events_of objs ys"
  by (induction xs) (auto split: option.splits)

lemma events_of_fresh:
  "n \<notin> set refs \<Longrightarrow> events_of (objs(n \<mapsto> e)) refs = events_of objs refs"
  by (induction refs) (auto split: option.splits)

lemma events_of_length:
  "list_all (\<lambda>r. objs r \<noteq> None) refs \<Longrightarrow> length (events_of objs refs) = length refs"
  by (induction refs) auto

lemma events_of_tl:
  "list_all (\<lambda>r. objs r \<noteq> None) refs \<Longrightarrow> events_of objs (tl refs) = tl (events_of objs refs)"
  by (cases refs) auto

lemma events_of_map:
  "\<forall>r\<in>set refs. objs r = Some (g r) \<Longrightarrow> events_of objs refs = map g refs"
  by (induction refs) auto

lemma wf_heap_refs:
  "wf_heap h \<Longrightarrow>
   arrays h securityLog = Some (array_refs securityLog h) \<and>
   list_all (\<lambda>r. r < nextAddr h \<and> objects h r \<noteq> None) (array_refs securityLog h) \<and>
   securityLog < nextAddr h"
  by (auto simp: wf_heap_def array_refs_def split: option.splits)

lemma wf_heap_length:
  assumes "wf_heap h"
  shows "length (array_contents securityLog h) = length (array_refs securityLog h)"
proof -
  from wf_heap_refs [OF assms]
  have "list_all (\<lambda>r. r < nextAddr h \<and> objects h r \<noteq> None) (array_refs securityLog h)"
    by blast
  then have "list_all (\<lambda>r. objects h r \<noteq> None) (array_refs securityLog h)"
    by (simp add: list_all_iff)
  then show ?thesis by (simp add: array_contents_def events_of_length)
qed

lemma logSecurityEvent_refs:
  "arrays h securityLog = Some refs \<Longrightarrow>
   arrays (logSecurityEvent ev now h) securityLog =
     Some (if length refs \<ge> 1000 then tl (refs @ [nextAddr h]) else refs @ [nextAddr h]) \<and>
   objects (logSecurityEvent ev now h) = (objects h)(nextAddr h \<mapsto> stamp now ev) \<and>
   nextAddr (logSecurityEvent ev now h) = Suc (nextAddr h)"
  by (simp add: logSecurityEvent_def array_push_def array_shift_def array_mutate_def
      array_refs_def Let_def)

lemma logSecurityEvent_step:
  assumes wf: "wf_heap h"
  shows "wf_heap (logSecurityEvent ev now h) \<and>
    array_contents securityLog (logSecurityEvent ev now h) =
      (if length (array_contents securityLog h) \<ge> 1000
       then tl (array_contents securityLog h @ [stamp now ev])
       else array_contents securityLog h @ [stamp now ev])"
proof -
  let ?refs = "array_refs securityLog h"
  let ?n = "nextAddr h"
  let ?h' = "logSecurityEvent ev now h"
  let ?objs' = "(objects h)(?n \<mapsto> stamp now ev)"
  let ?new = "if length ?refs \<ge> 1000 then tl (?refs @ [?n]) else ?refs @ [?n]"
  from wf_heap_refs [OF wf] have a: "arrays h securityLog = Some ?refs"
    and all: "list_all (\<lambda>r. r < ?n \<and> objects h r \<noteq> None) ?refs"
    and s: "securityLog < ?n"
    by blast+
  from a have step: "arrays ?h' securityLog = Some ?new" "objects ?h' = ?objs'"
    "nextAddr ?h' = Suc ?n"
    by (simp_all add: logSecurityEvent_refs)
  from all have fresh: "?n \<notin> set ?refs" by (auto simp: list_all_iff)
  from all have alloc: "list_all (\<lambda>r. ?objs' r \<noteq> None) (?refs @ [?n])"
    by (auto simp: list_all_iff)
  have ev_all: "events_of ?objs' (?refs @ [?n]) = array_contents securityLog h @ [stamp now ev]"
    using fresh by (simp add: events_of_append events_of_fresh array_contents_def)
  have len: "length (array_contents securityLog h) = length ?refs"
    using wf by (rule wf_heap_length)
  have "list_all (\<lambda>r. r < Suc ?n \<and> ?objs' r \<noteq> None) (?refs @ [?n])"
    using all by (auto simp: list_all_iff)
  then have "list_all (\<lambda>r. r < Suc ?n \<and> ?objs' r \<noteq> None) ?new"
    by (cases ?refs) (auto simp: list_all_iff)
  with step s have wf': "wf_heap ?h'"
    by (simp add: wf_heap_def)
  have "array_contents securityLog ?h' = events_of ?objs' ?new"
    using step by (simp add: array_contents_def array_refs_def)
  also have "\<dots> = (if length ?refs \<ge> 1000 then tl (events_of ?objs' (?refs @ [?n]))
                    else events_of ?objs' (?refs @ [?n]))"
    using alloc by (simp add: events_of_tl)
  finally show ?thesis using wf' ev_all len by simp
qed

lemma logSecurityEvent_drop:
  assumes "wf_heap h" and "length (array_contents securityLog h) \<le> 1000"
  shows "array_contents securityLog (logSecurityEvent ev now h) =
     drop (Suc (length (array_contents securityLog h)) - 1000)
       (array_contents securityLog h @ [stamp now ev])"
  using assms
  by (cases "array_contents securityLog h") (simp_all add: logSecurityEvent_step Suc_diff_le)

lemma log_events_contents:
  "wf_heap h \<Longrightarrow> array_contents securityLog h = xs \<Longrightarrow> length xs \<le> 1000 \<Longrightarrow>
   wf_heap (log_events evs h) \<and>
   array_contents securityLog (log_events evs h) =
     drop (length xs + length evs - 1000) (xs @ map (\<lambda>(ev, now). stamp now ev) evs)"
proof (induction evs arbitrary: h xs)
  case Nil
  then show ?case by simp
next
  case (Cons p evs)
  obtain ev now where p: "p = (ev, now)" by (cases p)
  let ?ys = "drop (Suc (length xs) - 1000) (xs @ [stamp now ev])"
  have w: "wf_heap (logSecurityEvent ev now h)"
    using Cons.prems(1) by (simp add: logSecurityEvent_step)
  have a: "array_contents securityLog (logSecurityEvent ev now h) = ?ys"
    using Cons.prems by (simp add: logSecurityEvent_drop)
  have l: "length ?ys \<le> 1000" using Cons.prems(3) by simp
  have "wf_heap (log_events evs (logSecurityEvent ev now h)) \<and>
      array_contents securityLog (log_events evs (logSecurityEvent ev now h)) =
      drop (length ?ys + length evs - 1000) (?ys @ map (\<lambda>(ev, now). stamp now ev) evs)"
    using w a l by (rule Cons.IH)
  moreover have "drop (length ?ys + length evs - 1000) (?ys @ map (\<lambda>(ev, now). stamp now ev) evs) =
      drop (length xs + length (p # evs) - 1000) (xs @ map (\<lambda>(ev, now). stamp now ev) (p # evs))"
  proof (cases "length xs = 1000")
    case True
    then show ?thesis using p by (simp add: drop_Suc tl_drop)
  next
    case False
    with Cons.prems(3) have "length xs < 1000" by simp
    then show ?thesis using p by simp
  qed
  ultimately show ?case using p by simp
qed

lemma wf_initial_heap: "wf_heap initial_heap \<and> array_contents securityLog initial_heap = []"
  by (simp add: wf_heap_def initial_heap_def array_contents_def array_refs_def)

lemma getSecurityLog_snapshot:
  assumes wf: "wf_heap h"
  shows "case getSecurityLog h of
      (a, h') \<Rightarrow>
        a \<noteq> securityLog \<and>
        array_refs a h' = array_refs securityLog h \<and>
        array_contents a h' = array_contents securityLog h \<and>
        array_contents securityLog h' = array_contents securityLog h \<and>
        (\<forall>f. array_refs a (array_mutate a f h') = f (array_refs securityLog h) \<and>
             array_refs securityLog (array_mutate a f h') = array_refs securityLog h \<and>
             array_contents securityLog (array_mutate a f h') = array_contents securityLog h)"
proof -
  from wf_heap_refs [OF wf] have "securityLog < nextAddr h" by blast
  then show ?thesis
    by (auto simp: getSecurityLog_def array_contents_def array_refs_def array_mutate_def)
qed

lemma wf_heap_getSecurityLog: "wf_heap h \<Longrightarrow> wf_heap (snd (getSecurityLog h))"
  by (auto simp: wf_heap_def getSecurityLog_def list_all_iff split: option.splits)

lemma wf_heap_array_mutate:
  "wf_heap h \<Longrightarrow> a \<noteq> securityLog \<Longrightarrow> wf_heap (array_mutate a f h)"
  by (auto simp: wf_heap_def array_mutate_def split: option.splits)

subsection \<open>Lemmas on the middleware\<close>

lemma sent_reply_status_send [simp]: "sent (reply_status_send code body s)"
  by (simp add: sent_def reply_status_send_def)

lemma statusCode_reply_status_send [simp]:
  "statusCode (reply (reply_status_send code body s)) = code"
  by (simp add: reply_status_send_def)

lemma replyHeaders_reply_status_send [simp]:
  "replyHeaders (reply (reply_status_send code body s)) = replyHeaders (reply s)"
  by (simp add: reply_status_send_def)

lemma sent_reply_header [simp]: "sent (reply_header k v s) = sent s"
  by (simp add: sent_def reply_header_def)

lemma payload_reply_header [simp]: "payload (reply (reply_header k v s)) = payload (reply s)"
  by (simp add: reply_header_def)

lemma statusCode_reply_header [simp]:
  "statusCode (reply (reply_header k v s)) = statusCode (reply s)"
  by (simp add: reply_header_def)

lemma replyHeaders_reply_header [simp]:
  "replyHeaders (reply (reply_header k v s)) = (replyHeaders (reply s))(k \<mapsto> v)"
  by (simp add: reply_header_def)

lemma store_reply_header [simp]: "store (reply_header k v s) = store s"
  by (simp add: reply_header_def)

lemma limits_reply_header [simp]: "limits (reply_header k v s) = limits s"
  by (simp add: reply_header_def)

lemma reply_log_event [simp]: "reply (log_event ev now s) = reply s"
  by (simp add: log_event_def)

lemma sent_log_event [simp]: "sent (log_event ev now s) = sent s"
  by (simp add: sent_def)

lemma auth_cases:
  "authMiddleware request config now s = s \<or>
   (sent (authMiddleware request config now s) \<and>
    replyHeaders (reply (authMiddleware request config now s)) = replyHeaders (reply s))"
  by (simp add: authMiddleware_def Let_def)

lemma rateLimit_headers [simp]:
  "replyHeaders (reply (rateLimitMiddleware request config now s)) = replyHeaders (reply s)"
  by (simp add: rateLimitMiddleware_def Let_def split: prod.splits)

lemma auth_headers [simp]:
  "replyHeaders (reply (authMiddleware request config now s)) = replyHeaders (reply s)"
  using auth_cases [of request config now s] by auto

lemma cors_headers:
  "k \<notin> {''Access-Control-Allow-Origin'', ''Access-Control-Allow-Credentials'',
          ''Access-Control-Allow-Methods'', ''Access-Control-Allow-Headers''} \<Longrightarrow>
   replyHeaders (reply (corsMiddleware request config now s)) k = replyHeaders (reply s) k"
  by (simp add: corsMiddleware_def Let_def split: option.splits)

lemma logging_reply [simp]:
  "reply (requestLoggingMiddleware request config s) = reply s"
  by (simp add: requestLoggingMiddleware_def)

lemma sent_logging [simp]: "sent (requestLoggingMiddleware request config s) = sent s"
  by (simp add: sent_def)

lemma sent_csp [simp]: "sent (cspMiddleware request s) = sent s"
  by (simp add: cspMiddleware_def)

lemma runHooks_registered:
  "\<not> sent s \<Longrightarrow>
   runHooks (registerSecurityMiddleware config) request now s =
     (let s3 = corsMiddleware request config now
                 (requestLoggingMiddleware request config (cspMiddleware request s))
      in if sent s3 then s3
         else let s4 = rateLimitMiddleware request config now s3
              in if sent s4 then s4 else authMiddleware request config now s4)"
  by (simp add: registerSecurityMiddleware_def Let_def)

lemma runHooks_sent: "sent s \<Longrightarrow> runHooks hs request now s = s"
  by (cases hs) simp_all

lemma runHooks_headers:
  "k \<notin> {''Access-Control-Allow-Origin'', ''Access-Control-Allow-Credentials'',
          ''Access-Control-Allow-Methods'', ''Access-Control-Allow-Headers''} \<Longrightarrow> \<not> sent s \<Longrightarrow>
   replyHeaders (reply (runHooks (registerSecurityMiddleware config) request now s)) k =
   replyHeaders (reply (cspMiddleware request s)) k"
  by (simp add: runHooks_registered Let_def cors_headers)

subsection \<open>Lemmas on strings\<close>

lemma startsWith_iff: "startsWith s p \<longleftrightarrow> (\<exists>post. s = p @ post)"
proof
  assume "startsWith s p"
  then have "s = p @ drop (length p) s"
    by (metis append_take_drop_id startsWith_def)
  then show "\<exists>post. s = p @ post" ..
next
  assume "\<exists>post. s = p @ post"
  then show "startsWith s p" by (auto simp: startsWith_def)
qed

lemma includes_str_iff: "includes_str s sub \<longleftrightarrow> (\<exists>pre post. s = pre @ sub @ post)"
proof (induction s)
  case Nil
  then show ?case by simp
next
  case (Cons c cs)
  show ?case
  proof
    assume "includes_str (c # cs) sub"
    then consider "startsWith (c # cs) sub" | "includes_str cs sub" by auto
    then show "\<exists>pre post. c # cs = pre @ sub @ post"
    proof cases
      case 1
      then obtain post where "c # cs = sub @ post" by (auto simp: startsWith_iff)
      then have "c # cs = [] @ sub @ post" by simp
      then show ?thesis by blast
    next
      case 2
      with Cons.IH obtain pre post where "cs = pre @ sub @ post" by auto
      then have "c # cs = (c # pre) @ sub @ post" by simp
      then show ?thesis by blast
    qed
  next
    assume "\<exists>pre post. c # cs = pre @ sub @ post"
    then obtain pre post where eq: "c # cs = pre @ sub @ post" by auto
    show "includes_str (c # cs) sub"
    proof (cases pre)
      case Nil
      with eq have "startsWith (c # cs) sub" by (auto simp: startsWith_iff)
      then show ?thesis by simp
    next
      case (Cons a pre')
      with eq have "cs = pre' @ sub @ post" by simp
      with Cons.IH have "includes_str cs sub" by blast
      then show ?thesis by simp
    qed
  qed
qed

subsection \<open>Lemmas on the configuration\<close>

lemma env_or_upd: "key \<noteq> k \<Longrightarrow> env_or (env(k := v)) key d = env_or env key d"
  by (simp add: env_or_def getEnvVar_def)

lemma getEnvNumber_upd:
  "key \<noteq> k \<Longrightarrow> getEnvNumber toNumber (env(k := v)) key d = getEnvNumber toNumber env key d"
  by (simp add: getEnvNumber_def)

lemma enable_auth_flag:
  "(env_or env ''ENABLE_AUTH'' ''false'' = ''true'') = (env ''ENABLE_AUTH'' = Some ''true'')"
  by (simp add: env_or_def getEnvVar_def split: option.splits)

lemma createConfig_Inr:
  "createConfig toNumber packageJson env = Inr c \<Longrightarrow>
   enableAuth c = (env_or env ''ENABLE_AUTH'' ''false'' = ''true'') \<and> apiKey c = env ''API_KEY''"
  unfolding createConfig_def Let_def
  by (cases "getEnvNumber toNumber env ''PORT'' 8080";
      cases "getEnvNumber toNumber env ''MAX_REQUESTS_PER_MINUTE'' 100")
     (auto simp del: set_simps split: if_splits)

lemma createConfig_apiKey_irrelevant:
  "isl (createConfig toNumber packageJson (env(''API_KEY'' := k))) =
   isl (createConfig toNumber packageJson env)"
proof -
  have e: "\<And>key d. key \<noteq> ''API_KEY'' \<Longrightarrow> env_or (env(''API_KEY'' := k)) key d = env_or env key d"
    by (rule env_or_upd)
  have n: "\<And>key d. key \<noteq> ''API_KEY'' \<Longrightarrow>
      getEnvNumber toNumber (env(''API_KEY'' := k)) key d = getEnvNumber toNumber env key d"
    by (rule getEnvNumber_upd)
  have e1: "env_or (env(''API_KEY'' := k)) ''NODE_ENV'' = env_or env ''NODE_ENV''"
    by (rule ext) (simp add: e)
  have e2: "env_or (env(''API_KEY'' := k)) ''LOG_LEVEL'' = env_or env ''LOG_LEVEL''"
    by (rule ext) (simp add: e)
  have n1: "getEnvNumber toNumber (env(''API_KEY'' := k)) ''PORT'' = getEnvNumber toNumber env ''PORT''"
    by (rule ext) (simp add: n)
  have n2: "getEnvNumber toNumber (env(''API_KEY'' := k)) ''MAX_REQUESTS_PER_MINUTE'' =
      getEnvNumber toNumber env ''MAX_REQUESTS_PER_MINUTE''"
    by (rule ext) (simp add: n)
  show ?thesis
    unfolding createConfig_def Let_def e1 e2 n1 n2
    by (cases "getEnvNumber toNumber env ''PORT'' 8080";
        cases "getEnvNumber toNumber env ''MAX_REQUESTS_PER_MINUTE'' 100")
       (simp_all del: set_simps)
qed

lemma env_or_valid:
  "env key = None \<or> (\<exists>v. env key = Some v \<and> v \<in> set vs) \<Longrightarrow> d \<in> set vs \<Longrightarrow>
   env_or env key d \<in> set vs"
  by (auto simp: env_or_def getEnvVar_def)

lemma getEnvNumber_valid:
  "env key = None \<or> (\<exists>v n. env key = Some v \<and> toNumber v = Some n \<and> P n) \<Longrightarrow> P d \<Longrightarrow>
   \<exists>n. getEnvNumber toNumber env key d = Inr n \<and> P n"
  by (auto simp: getEnvNumber_def)

lemma createConfig_succeeds:
  assumes ne: "env ''NODE_ENV'' = None \<or>
      (\<exists>v. env ''NODE_ENV'' = Some v \<and> v \<in> set [''development'', ''production'', ''test''])"
    and po: "env ''PORT'' = None \<or>
      (\<exists>v n. env ''PORT'' = Some v \<and> toNumber v = Some n \<and> 1 \<le> n \<and> n \<le> 65535)"
    and mx: "env ''MAX_REQUESTS_PER_MINUTE'' = None \<or>
      (\<exists>v n. env ''MAX_REQUESTS_PER_MINUTE'' = Some v \<and> toNumber v = Some n)"
    and ll: "env ''LOG_LEVEL'' = None \<or>
      (\<exists>v. env ''LOG_LEVEL'' = Some v \<and>
           v \<in> set [''trace'', ''debug'', ''info'', ''warn'', ''error'', ''fatal''])"
  shows "\<exists>c. createConfig toNumber packageJson env = Inr c \<and>
      enableAuth c = (env ''ENABLE_AUTH'' = Some ''true'') \<and> apiKey c = env ''API_KEY''"
proof -
  define nodeEnv' where "nodeEnv' = env_or env ''NODE_ENV'' ''development''"
  define lvl where "lvl = env_or env ''LOG_LEVEL''
      (if nodeEnv' = ''production'' then ''info'' else ''debug'')"
  have n: "nodeEnv' \<in> set [''development'', ''production'', ''test'']"
    unfolding nodeEnv'_def using ne by (rule env_or_valid) simp
  have l: "lvl \<in> set [''trace'', ''debug'', ''info'', ''warn'', ''error'', ''fatal'']"
    unfolding lvl_def using ll by (rule env_or_valid) simp
  from po obtain p where p: "getEnvNumber toNumber env ''PORT'' 8080 = Inr p" "1 \<le> p" "p \<le> 65535"
    using getEnvNumber_valid [of env "''PORT''" toNumber "\<lambda>n. 1 \<le> n \<and> n \<le> 65535" 8080]
    by auto
  from mx obtain m where m: "getEnvNumber toNumber env ''MAX_REQUESTS_PER_MINUTE'' 100 = Inr m"
    using getEnvNumber_valid [of env "''MAX_REQUESTS_PER_MINUTE''" toNumber "\<lambda>n. True" 100]
    by auto
  have "\<exists>c. createConfig toNumber packageJson env = Inr c \<and>
      enableAuth c = (env_or env ''ENABLE_AUTH'' ''false'' = ''true'') \<and> apiKey c = env ''API_KEY''"
    unfolding createConfig_def Let_def
    using n l p m
    by (simp del: set_simps add: nodeEnv'_def [symmetric] lvl_def [symmetric])
  then show ?thesis by (simp only: enable_auth_flag)
qed

lemma auth_without_key_401:
  "enableAuth config \<Longrightarrow> startsWith (url request) ''/mcp'' \<Longrightarrow>
   headers request ''authorization'' = None \<or>
     (\<exists>h. headers request ''authorization'' = Some h \<and> \<not> startsWith h ''Bearer '') \<Longrightarrow>
   sent (authMiddleware request config now s) \<and>
   statusCode (reply (authMiddleware request config now s)) = 401"
  by (auto simp: authMiddleware_def Let_def)

lemma auth_without_key_403:
  "enableAuth config \<Longrightarrow> apiKey config = None \<Longrightarrow> startsWith (url request) ''/mcp'' \<Longrightarrow>
   \<exists>token. headers request ''authorization'' = Some (''Bearer '' @ token) \<Longrightarrow>
   sent (authMiddleware request config now s) \<and>
   statusCode (reply (authMiddleware request config now s)) = 403"
  by (auto simp: authMiddleware_def Let_def startsWith_def)

subsection \<open>Lemmas on the sanitizer\<close>

text \<open>While every \<open>lastIndex\<close> is 0, an input with a match of some pattern is rejected.\<close>

lemma regexp_exec_fresh:
  "j \<le> length s \<Longrightarrow> match_at p s j \<noteq> None \<Longrightarrow> regexp_exec p s 0 \<noteq> None"
proof -
  assume j: "j \<le> length s" and m: "match_at p s j \<noteq> None"
  from j have "j \<in> set [0..<Suc (length s)]" by auto
  with m have "List.find (\<lambda>j. match_at p s j \<noteq> None) [0..<Suc (length s)] \<noteq> None"
    by (auto simp: find_None_iff)
  then obtain k where k: "List.find (\<lambda>j. match_at p s j \<noteq> None) [0..<Suc (length s)] = Some k"
    by auto
  then have "match_at p s k \<noteq> None"
    by (auto simp: find_Some_iff)
  with k show ?thesis by (simp add: regexp_exec_def)
qed

lemma test_patterns_fresh:
  "\<forall>r\<in>set rs. lastIndex r = 0 \<Longrightarrow> r \<in> set rs \<Longrightarrow> j \<le> length s \<Longrightarrow>
   match_at (pattern r) s j \<noteq> None \<Longrightarrow> fst (test_patterns rs s)"
proof (induction rs)
  case Nil
  then show ?case by simp
next
  case (Cons a rs)
  show ?case
  proof (cases "fst (regexp_test a s)")
    case True
    then show ?thesis by (simp add: split_beta split: bool.splits)
  next
    case False
    have "r \<noteq> a"
    proof
      assume "r = a"
      with Cons.prems have "match_at (pattern a) s j \<noteq> None" and "lastIndex a = 0"
        by simp_all
      with Cons.prems(3) have "regexp_exec (pattern a) s 0 \<noteq> None" and "lastIndex a = 0"
        by (simp_all add: regexp_exec_fresh)
      then have "fst (regexp_test a s)" by (auto simp: regexp_test_def)
      with False show False by simp
    qed
    with Cons.prems have "r \<in> set rs" by simp
    with Cons have "fst (test_patterns rs s)" by simp
    with False show ?thesis by (simp add: split_beta split: bool.splits)
  qed
qed

lemma sanitizeInput_fresh_rejects:
  "\<forall>r\<in>set patterns. lastIndex r = 0 \<Longrightarrow> r \<in> set patterns \<Longrightarrow> j \<le> length input \<Longrightarrow>
   match_at (pattern r) input j \<noteq> None \<Longrightarrow> int (length input) \<le> maxLength \<Longrightarrow>
   fst (sanitizeInput input maxLength patterns) = Inl DangerousInput"
  using test_patterns_fresh [of patterns r j input]
  by (simp add: sanitizeInput_def split_beta split: bool.splits)

section \<open>Claims\<close>

text \<open>
  C10. Whenever the identifier has no entry, or its window has expired
  (\<open>now > resetTime\<close>), \<open>checkRateLimit\<close> admits the call and installs the entry
  \<open>{count: 1, resetTime: now + windowMs}\<close>; \<open>maxRequests\<close> is not consulted, so this holds
  for every value of it, \<open>0\<close> included.
\<close>

theorem C10_fresh_window_always_admitted:
  "m ident = None \<or> (\<exists>e. m ident = Some e \<and> now > resetTime e) \<Longrightarrow>
   checkRateLimit ident maxRequests windowMs now m =
     (True, m(ident \<mapsto> \<lparr>count = 1, resetTime = now + windowMs\<rparr>))"
  by (auto simp: checkRateLimit_def)

theorem C10_fresh_window_always_admitted_witness:
  "checkRateLimit ''client'' 0 60000 1000 Map.empty =
     (True, Map.empty(''client'' \<mapsto> \<lparr>count = 1, resetTime = 1000 + 60000\<rparr>)) \<and>
   checkRateLimit ''client'' 0 60000 70000
       (Map.empty(''client'' \<mapsto> \<lparr>count = 5, resetTime = 61000\<rparr>)) =
     (True, (Map.empty(''client'' \<mapsto> \<lparr>count = 5, resetTime = 61000\<rparr>))
               (''client'' \<mapsto> \<lparr>count = 1, resetTime = 70000 + 60000\<rparr>))"
  using C10_fresh_window_always_admitted [of Map.empty "''client''" 1000 0 60000]
        C10_fresh_window_always_admitted
          [of "Map.empty(''client'' \<mapsto> \<lparr>count = 5, resetTime = 61000\<rparr>)" "''client''" 70000 0 60000]
  by simp

text \<open>
  C1 (amended). For every identifier and every \<open>maxRequests = N\<close> with \<open>N \<ge> 1\<close>, starting
  from a state with no live entry for the identifier: the first \<open>N\<close> calls within the window
  (clock readings not after \<open>resetTime\<close>) are admitted, the next call within the window is
  denied and leaves the map unchanged, and a call after \<open>resetTime\<close> is admitted again and
  installs a fresh window with count 1.
\<close>

theorem C1_first_N_admitted_then_denied:
  assumes N: "1 \<le> N"
    and fresh: "m ident = None \<or> (\<exists>e. m ident = Some e \<and> t0 > resetTime e)"
    and len: "int (length ts) = N - 1"
    and within: "\<forall>t\<in>set ts. t \<le> t0 + windowMs"
    and last_within: "tN \<le> t0 + windowMs"
    and later: "t' > t0 + windowMs"
  shows "case checkRateLimit_calls ident N windowMs (t0 # ts) m of
           (rs, m1) \<Rightarrow>
             rs = replicate (nat N) True \<and>
             checkRateLimit ident N windowMs tN m1 = (False, m1) \<and>
             checkRateLimit ident N windowMs t' m1 =
               (True, m1(ident \<mapsto> \<lparr>count = 1, resetTime = t' + windowMs\<rparr>))"
proof -
  let ?m0 = "m(ident \<mapsto> \<lparr>count = 1, resetTime = t0 + windowMs\<rparr>)"
  from fresh have "\<not> live_entry m ident t0"
    by (auto simp: live_entry_def)
  then have first: "checkRateLimit ident N windowMs t0 m = (True, ?m0)"
    by (rule checkRateLimit_fresh)
  have e0: "?m0 ident = Some \<lparr>count = 1, resetTime = t0 + windowMs\<rparr>" by simp
  from len have "1 + int (length ts) \<le> N" by simp
  with e0 within have rest:
    "fst (checkRateLimit_calls ident N windowMs ts ?m0) = replicate (length ts) True \<and>
     snd (checkRateLimit_calls ident N windowMs ts ?m0) ident =
       Some \<lparr>count = 1 + int (length ts), resetTime = t0 + windowMs\<rparr>"
    by (intro calls_within_window) auto
  define m1 where "m1 = snd (checkRateLimit_calls ident N windowMs ts ?m0)"
  from rest len have e1: "m1 ident = Some \<lparr>count = N, resetTime = t0 + windowMs\<rparr>"
    by (simp add: m1_def)
  from len N have n: "Suc (length ts) = nat N" by linarith
  have results: "fst (checkRateLimit_calls ident N windowMs (t0 # ts) m) = replicate (nat N) True"
    using first rest n [symmetric] by (simp add: split_beta)
  have state: "snd (checkRateLimit_calls ident N windowMs (t0 # ts) m) = m1"
    using first by (simp add: split_beta m1_def)
  have denied: "checkRateLimit ident N windowMs tN m1 = (False, m1)"
    using e1 last_within by (intro checkRateLimit_full) auto
  have "\<not> live_entry m1 ident t'"
    using e1 later by (simp add: live_entry_def)
  then have again: "checkRateLimit ident N windowMs t' m1 =
      (True, m1(ident \<mapsto> \<lparr>count = 1, resetTime = t' + windowMs\<rparr>))"
    by (rule checkRateLimit_fresh)
  show ?thesis
    using results state denied again by (simp add: split_beta)
qed

theorem C1_first_N_admitted_then_denied_witness:
  "case checkRateLimit_calls ''client'' 2 60000 [1000, 1500] Map.empty of
     (rs, m1) \<Rightarrow>
       rs = [True, True] \<and>
       checkRateLimit ''client'' 2 60000 2000 m1 = (False, m1) \<and>
       checkRateLimit ''client'' 2 60000 70000 m1 =
         (True, m1(''client'' \<mapsto> \<lparr>count = 1, resetTime = 130000\<rparr>))"
  using C1_first_N_admitted_then_denied
    [of 2 Map.empty "''client''" 1000 "[1500]" 60000 2000 70000]
  by (simp add: numeral_2_eq_2)

text \<open>
  C1 as stated also covers \<open>N = 0\<close>, where the (N+1)-th call is the first one: it is
  admitted, not denied.
\<close>

theorem C1_zero_limit_counterexample:
  "fst (checkRateLimit ''client'' 0 60000 1000 Map.empty) \<noteq> False"
  by (simp add: checkRateLimit_def)

text \<open>
  C4 (amended). The audit log never holds more than 1000 entries after any sequence of
  \<open>logSecurityEvent\<close> appends (from the empty log it holds the last 1000 events appended, in
  insertion order); an append to a log of 1000 entries drops exactly the oldest one; and
  \<open>getSecurityLog\<close> returns a new array whose slots hold the log's event objects in
  insertion order, so that any change made to the returned array itself (its length, its
  slots) leaves the module's array and the events read through it as they were. The event
  objects are shared, not copied: an assignment to a field of an element of the returned
  array shows in the log exactly as it shows in the returned array.
\<close>

theorem C4_audit_log_bounded_fifo_snapshot:
  "(wf_heap h \<and> length (array_contents securityLog h) \<le> 1000 \<longrightarrow>
      length (array_contents securityLog (log_events evs h)) \<le> 1000) \<and>
   array_contents securityLog (log_events evs initial_heap) =
     drop (length evs - 1000) (map (\<lambda>(ev, now). stamp now ev) evs) \<and>
   (wf_heap h \<and> length (array_contents securityLog h) = 1000 \<longrightarrow>
      array_contents securityLog (logSecurityEvent ev now h) =
        tl (array_contents securityLog h) @ [stamp now ev]) \<and>
   (wf_heap h \<longrightarrow>
      (case getSecurityLog h of
         (a, h') \<Rightarrow>
           a \<noteq> securityLog \<and>
           array_refs a h' = array_refs securityLog h \<and>
           array_contents a h' = array_contents securityLog h \<and>
           array_contents securityLog h' = array_contents securityLog h \<and>
           (\<forall>f. array_refs a (array_mutate a f h') = f (array_refs securityLog h) \<and>
                array_refs securityLog (array_mutate a f h') = array_refs securityLog h \<and>
                array_contents securityLog (array_mutate a f h') =
                  array_contents securityLog h) \<and>
           (\<forall>i f. array_contents securityLog (element_write a i f h') =
                  array_contents a (element_write a i f h'))))"
proof (intro conjI impI)
  assume "wf_heap h \<and> length (array_contents securityLog h) \<le> 1000"
  then have "array_contents securityLog (log_events evs h) =
      drop (length (array_contents securityLog h) + length evs - 1000)
        (array_contents securityLog h @ map (\<lambda>(ev, now). stamp now ev) evs)"
    by (simp add: log_events_contents)
  then show "length (array_contents securityLog (log_events evs h)) \<le> 1000"
    by simp
next
  have "array_contents securityLog (log_events evs initial_heap) =
      drop (length ([]::SecurityEvent list) + length evs - 1000)
        ([] @ map (\<lambda>(ev, now). stamp now ev) evs)"
    using wf_initial_heap by (intro log_events_contents [THEN conjunct2]) simp_all
  then show "array_contents securityLog (log_events evs initial_heap) =
      drop (length evs - 1000) (map (\<lambda>(ev, now). stamp now ev) evs)"
    by simp
next
  assume "wf_heap h \<and> length (array_contents securityLog h) = 1000"
  then show "array_contents securityLog (logSecurityEvent ev now h) =
      tl (array_contents securityLog h) @ [stamp now ev]"
    by (cases "array_contents securityLog h") (simp_all add: logSecurityEvent_step)
next
  assume wf: "wf_heap h"
  from wf_heap_refs [OF wf] have s: "securityLog < nextAddr h" by blast
  have shared: "\<forall>i f. array_contents securityLog
        (element_write (fst (getSecurityLog h)) i f (snd (getSecurityLog h))) =
      array_contents (fst (getSecurityLog h))
        (element_write (fst (getSecurityLog h)) i f (snd (getSecurityLog h)))"
    using s
    by (auto simp: getSecurityLog_def element_write_def array_contents_def array_refs_def
        split: option.splits)
  from getSecurityLog_snapshot [OF wf] shared
  show "case getSecurityLog h of
      (a, h') \<Rightarrow>
        a \<noteq> securityLog \<and>
        array_refs a h' = array_refs securityLog h \<and>
        array_contents a h' = array_contents securityLog h \<and>
        array_contents securityLog h' = array_contents securityLog h \<and>
        (\<forall>f. array_refs a (array_mutate a f h') = f (array_refs securityLog h) \<and>
             array_refs securityLog (array_mutate a f h') = array_refs securityLog h \<and>
             array_contents securityLog (array_mutate a f h') = array_contents securityLog h) \<and>
        (\<forall>i f. array_contents securityLog (element_write a i f h') =
               array_contents a (element_write a i f h'))"
    by (simp add: split_beta)
qed

theorem C4_audit_log_bounded_fifo_snapshot_witness:
  "wf_heap full_heap \<and>
   length (array_contents securityLog full_heap) = 1000 \<and>
   array_contents securityLog full_heap = map (\<lambda>r. stamp (int r) example_event) [1..<1001] \<and>
   array_contents securityLog (logSecurityEvent example_event 2000 full_heap) =
     map (\<lambda>r. stamp (int r) example_event) [2..<1001] @ [stamp 2000 example_event] \<and>
   length (array_contents securityLog
     (log_events [(example_event, 2000), (example_event, 2001)] full_heap)) \<le> 1000 \<and>
   fst (getSecurityLog full_heap) \<noteq> securityLog \<and>
   array_refs (fst (getSecurityLog full_heap))
     (array_mutate (fst (getSecurityLog full_heap)) tl (snd (getSecurityLog full_heap))) =
     tl (array_refs securityLog full_heap) \<and>
   array_contents securityLog
     (array_mutate (fst (getSecurityLog full_heap)) tl (snd (getSecurityLog full_heap))) =
     array_contents securityLog full_heap"
proof -
  have wf: "wf_heap full_heap"
    by (simp add: wf_heap_def full_heap_def securityLog_def list_all_iff)
  have refs: "array_refs securityLog full_heap = [1..<1001]"
    by (simp add: full_heap_def array_refs_def)
  have "events_of (objects full_heap) [1..<1001] =
      map (\<lambda>r. stamp (int r) example_event) [1..<1001]"
    by (rule events_of_map) (simp add: full_heap_def)
  with refs have contents: "array_contents securityLog full_heap =
      map (\<lambda>r. stamp (int r) example_event) [1..<1001]"
    by (simp add: array_contents_def)
  then have len: "length (array_contents securityLog full_heap) = 1000"
    by simp
  have "[1..<1001] = 1 # [Suc 1..<1001]"
    by (rule upt_conv_Cons) simp
  moreover have "Suc 1 = 2"
    by simp
  ultimately have "[1..<1001] = 1 # [2..<1001]"
    by (simp only:)
  with contents have tail: "tl (array_contents securityLog full_heap) =
      map (\<lambda>r. stamp (int r) example_event) [2..<1001]"
    by simp
  note inst = C4_audit_log_bounded_fifo_snapshot [of full_heap
      "[(example_event, 2000), (example_event, 2001)]" example_event 2000]
  from inst wf len have bound: "length (array_contents securityLog
      (log_events [(example_event, 2000), (example_event, 2001)] full_heap)) \<le> 1000"
    by simp
  from inst wf len have "array_contents securityLog (logSecurityEvent example_event 2000 full_heap) =
      tl (array_contents securityLog full_heap) @ [stamp 2000 example_event]"
    by blast
  with tail have fifo: "array_contents securityLog (logSecurityEvent example_event 2000 full_heap) =
      map (\<lambda>r. stamp (int r) example_event) [2..<1001] @ [stamp 2000 example_event]"
    by simp
  from inst wf have snap: "fst (getSecurityLog full_heap) \<noteq> securityLog \<and>
      array_refs (fst (getSecurityLog full_heap))
        (array_mutate (fst (getSecurityLog full_heap)) tl (snd (getSecurityLog full_heap))) =
        tl (array_refs securityLog full_heap) \<and>
      array_contents securityLog
        (array_mutate (fst (getSecurityLog full_heap)) tl (snd (getSecurityLog full_heap))) =
        array_contents securityLog full_heap"
    by (simp add: split_beta)
  from wf len contents fifo bound snap show ?thesis by blast
qed

text \<open>
  C4 as stated: what \<open>getSecurityLog\<close> returns is a copy through which the log cannot be
  changed. On a log of one event, the assignment \<open>snapshot[0].event = "tampered"\<close> changes
  the event read through the module's array.
\<close>

theorem C4_shared_event_counterexample:
  "array_contents securityLog one_event_heap = [stamp 1 example_event] \<and>
   array_contents securityLog
     (element_write (fst (getSecurityLog one_event_heap)) 0 tamper
        (snd (getSecurityLog one_event_heap))) = [tamper (stamp 1 example_event)] \<and>
   tamper (stamp 1 example_event) \<noteq> stamp 1 example_event"
  by (simp add: one_event_heap_def logSecurityEvent_def initial_heap_def array_push_def
      array_shift_def array_mutate_def array_refs_def array_contents_def getSecurityLog_def
      element_write_def securityLog_def tamper_def stamp_def example_event_def Let_def)

text \<open>
  C2. With \<open>enableAuth = true\<close> and \<open>apiKey = "secret123"\<close>: on a path that starts with
  \<open>/mcp\<close>, the header \<open>Authorization: Bearer secret123\<close> is admitted and nothing is
  written; a bearer token other than the key (such as \<open>Bearer wrong\<close>) is rejected with
  status 403; a missing header, or one that does not start with \<open>Bearer \<close>, is rejected with
  status 401; on a path outside the prefix the request is admitted whatever the header.
\<close>

theorem C2_bearer_authentication:
  assumes "enableAuth config" and "apiKey config = Some ''secret123''"
  shows
   "(startsWith (url request) ''/mcp'' \<and>
       headers request ''authorization'' = Some ''Bearer secret123'' \<longrightarrow>
       authMiddleware request config now s = s) \<and>
    (startsWith (url request) ''/mcp'' \<and>
       (\<exists>token. headers request ''authorization'' = Some (''Bearer '' @ token) \<and>
                token \<noteq> ''secret123'') \<longrightarrow>
       sent (authMiddleware request config now s) \<and>
       statusCode (reply (authMiddleware request config now s)) = 403) \<and>
    (startsWith (url request) ''/mcp'' \<and>
       (headers request ''authorization'' = None \<or>
        (\<exists>h. headers request ''authorization'' = Some h \<and> \<not> startsWith h ''Bearer '')) \<longrightarrow>
       sent (authMiddleware request config now s) \<and>
       statusCode (reply (authMiddleware request config now s)) = 401) \<and>
    (\<not> startsWith (url request) ''/mcp'' \<longrightarrow> authMiddleware request config now s = s)"
  using assms
  by (auto simp: authMiddleware_def Let_def startsWith_def split: option.splits)

theorem C2_bearer_authentication_witness:
  "authMiddleware (example_request ''/mcp'' [''authorization'' \<mapsto> ''Bearer secret123''])
     example_config 0 initial_state = initial_state \<and>
   statusCode (reply (authMiddleware
     (example_request ''/mcp'' [''authorization'' \<mapsto> ''Bearer wrong''])
     example_config 0 initial_state)) = 403 \<and>
   statusCode (reply (authMiddleware (example_request ''/mcp'' Map.empty)
     example_config 0 initial_state)) = 401 \<and>
   statusCode (reply (authMiddleware
     (example_request ''/mcp'' [''authorization'' \<mapsto> ''Basic dXNlcjpwdw==''])
     example_config 0 initial_state)) = 401 \<and>
   authMiddleware (example_request ''/health'' [''authorization'' \<mapsto> ''Bearer wrong''])
     example_config 0 initial_state = initial_state"
  using
    C2_bearer_authentication [of example_config
      "example_request ''/mcp'' [''authorization'' \<mapsto> ''Bearer secret123'']" 0 initial_state]
    C2_bearer_authentication [of example_config
      "example_request ''/mcp'' [''authorization'' \<mapsto> ''Bearer wrong'']" 0 initial_state]
    C2_bearer_authentication [of example_config
      "example_request ''/mcp'' Map.empty" 0 initial_state]
    C2_bearer_authentication [of example_config
      "example_request ''/mcp'' [''authorization'' \<mapsto> ''Basic dXNlcjpwdw=='']" 0 initial_state]
    C2_bearer_authentication [of example_config
      "example_request ''/health'' [''authorization'' \<mapsto> ''Bearer wrong'']" 0 initial_state]
  by (simp add: example_config_def example_request_def startsWith_def)

text \<open>
  C6. With \<open>trustedOrigins = ["https://a.com"]\<close>, on a path that starts with \<open>/mcp\<close>: the
  origin \<open>https://a.com\<close> is admitted and echoed in \<open>Access-Control-Allow-Origin\<close>; the
  origin \<open>https://evil.com\<close> is rejected with status 403; a request without an \<open>Origin\<close>
  header, and any request when the trusted list is empty, passes: no rejection, no audit
  event, and no allow-origin header is written.
\<close>

theorem C6_origin_guard:
  "(trustedOrigins config = [''https://a.com''] \<and> startsWith (url request) ''/mcp'' \<and>
      headers request ''origin'' = Some ''https://a.com'' \<longrightarrow>
      payload (reply (corsMiddleware request config now s)) = payload (reply s) \<and>
      statusCode (reply (corsMiddleware request config now s)) = statusCode (reply s) \<and>
      replyHeaders (reply (corsMiddleware request config now s)) ''Access-Control-Allow-Origin'' =
        Some ''https://a.com'') \<and>
   (trustedOrigins config = [''https://a.com''] \<and> startsWith (url request) ''/mcp'' \<and>
      headers request ''origin'' = Some ''https://evil.com'' \<longrightarrow>
      sent (corsMiddleware request config now s) \<and>
      statusCode (reply (corsMiddleware request config now s)) = 403) \<and>
   (headers request ''origin'' = None \<or> trustedOrigins config = [] \<longrightarrow>
      payload (reply (corsMiddleware request config now s)) = payload (reply s) \<and>
      statusCode (reply (corsMiddleware request config now s)) = statusCode (reply s) \<and>
      store (corsMiddleware request config now s) = store s \<and>
      replyHeaders (reply (corsMiddleware request config now s)) ''Access-Control-Allow-Origin'' =
        replyHeaders (reply s) ''Access-Control-Allow-Origin'')"
  by (auto simp: corsMiddleware_def Let_def split: option.splits)

theorem C6_origin_guard_witness:
  "replyHeaders (reply (corsMiddleware
       (example_request ''/mcp'' [''origin'' \<mapsto> ''https://a.com'']) example_config 0 initial_state))
     ''Access-Control-Allow-Origin'' = Some ''https://a.com'' \<and>
   payload (reply (corsMiddleware
       (example_request ''/mcp'' [''origin'' \<mapsto> ''https://a.com'']) example_config 0 initial_state))
     = None \<and>
   statusCode (reply (corsMiddleware
       (example_request ''/mcp'' [''origin'' \<mapsto> ''https://evil.com'']) example_config 0
       initial_state)) = 403 \<and>
   payload (reply (corsMiddleware (example_request ''/mcp'' Map.empty) example_config 0
       initial_state)) = None \<and>
   payload (reply (corsMiddleware
       (example_request ''/mcp'' [''origin'' \<mapsto> ''https://evil.com''])
       (example_config\<lparr>trustedOrigins := []\<rparr>) 0 initial_state)) = None"
  using
    C6_origin_guard [of example_config
      "example_request ''/mcp'' [''origin'' \<mapsto> ''https://a.com'']" 0 initial_state]
    C6_origin_guard [of example_config
      "example_request ''/mcp'' [''origin'' \<mapsto> ''https://evil.com'']" 0 initial_state]
    C6_origin_guard [of example_config "example_request ''/mcp'' Map.empty" 0 initial_state]
    C6_origin_guard [of "example_config\<lparr>trustedOrigins := []\<rparr>"
      "example_request ''/mcp'' [''origin'' \<mapsto> ''https://evil.com'']" 0 initial_state]
  by (simp add: example_config_def example_request_def startsWith_def initial_state_def)

text \<open>
  C5. For a request that arrives with no reply sent, the hooks added by
  \<open>registerSecurityMiddleware\<close> run in the order security headers, request logging, origin
  check, rate limiter, authentication. Request logging leaves the reply alone. The state
  after the chain is the state after the first stage that sent a rejection (no later stage
  has run on it), the four security headers are on the reply whichever stage ended the
  chain, and the dispatcher runs only when no stage sent a rejection.
\<close>

theorem C5_fixed_stage_order:
  assumes "\<not> sent s"
  shows
   "(let s1 = cspMiddleware request s;
         s2 = requestLoggingMiddleware request config s1;
         s3 = corsMiddleware request config now s2;
         s4 = rateLimitMiddleware request config now s3;
         s5 = authMiddleware request config now s4;
         final = runHooks (registerSecurityMiddleware config) request now s
     in reply s2 = reply s1 \<and> \<not> sent s2 \<and>
        final = (if sent s3 then s3 else if sent s4 then s4 else s5) \<and>
        replyHeaders (reply final) ''Content-Security-Policy'' = Some csp_value \<and>
        replyHeaders (reply final) ''X-Content-Type-Options'' = Some ''nosniff'' \<and>
        replyHeaders (reply final) ''X-Frame-Options'' = Some ''DENY'' \<and>
        replyHeaders (reply final) ''Referrer-Policy'' = Some ''strict-origin-when-cross-origin'' \<and>
        handleRequest (registerSecurityMiddleware config) dispatch request now s =
          (if sent final then final else dispatch request final))"
proof -
  have order: "runHooks (registerSecurityMiddleware config) request now s =
      (let s3 = corsMiddleware request config now
                  (requestLoggingMiddleware request config (cspMiddleware request s))
       in if sent s3 then s3
          else let s4 = rateLimitMiddleware request config now s3
               in if sent s4 then s4 else authMiddleware request config now s4)"
    using assms by (rule runHooks_registered)
  have h1: "replyHeaders (reply (runHooks (registerSecurityMiddleware config) request now s))
       ''Content-Security-Policy'' = Some csp_value"
    using assms by (subst runHooks_headers) (simp_all add: cspMiddleware_def csp_value_def)
  have h2: "replyHeaders (reply (runHooks (registerSecurityMiddleware config) request now s))
       ''X-Content-Type-Options'' = Some ''nosniff''"
    using assms by (subst runHooks_headers) (simp_all add: cspMiddleware_def)
  have h3: "replyHeaders (reply (runHooks (registerSecurityMiddleware config) request now s))
       ''X-Frame-Options'' = Some ''DENY''"
    using assms by (subst runHooks_headers) (simp_all add: cspMiddleware_def)
  have h4: "replyHeaders (reply (runHooks (registerSecurityMiddleware config) request now s))
       ''Referrer-Policy'' = Some ''strict-origin-when-cross-origin''"
    using assms by (subst runHooks_headers) (simp_all add: cspMiddleware_def)
  show ?thesis
    unfolding Let_def
    using assms h1 h2 h3 h4 by (simp add: order Let_def handleRequest_def)
qed

theorem C5_fixed_stage_order_witness:
  "\<not> sent initial_state \<and>
   statusCode (reply (runHooks (registerSecurityMiddleware example_config)
     evil_request 0 initial_state)) = 403 \<and>
   limits (runHooks (registerSecurityMiddleware example_config) evil_request 0 initial_state) =
     limits initial_state \<and>
   replyHeaders (reply (runHooks (registerSecurityMiddleware example_config)
     evil_request 0 initial_state)) ''X-Frame-Options'' = Some ''DENY'' \<and>
   handleRequest (registerSecurityMiddleware example_config) (\<lambda>request s. s\<lparr>requestLog := []\<rparr>)
     evil_request 0 initial_state =
   runHooks (registerSecurityMiddleware example_config) evil_request 0 initial_state"
proof -
  let ?s3 = "corsMiddleware evil_request example_config 0
      (requestLoggingMiddleware evil_request example_config
        (cspMiddleware evil_request initial_state))"
  let ?final = "runHooks (registerSecurityMiddleware example_config) evil_request 0 initial_state"
  have start: "\<not> sent initial_state"
    by (simp add: sent_def initial_state_def)
  note chain = C5_fixed_stage_order [OF start, of evil_request example_config 0
        "\<lambda>request s. s\<lparr>requestLog := []\<rparr>", unfolded Let_def]
  have rejected: "sent ?s3"
    by (simp add: corsMiddleware_def evil_request_def example_request_def example_config_def
        startsWith_def)
  have st: "statusCode (reply ?s3) = 403"
    by (simp add: corsMiddleware_def evil_request_def example_request_def example_config_def
        startsWith_def)
  have lim: "limits ?s3 = limits initial_state"
    by (simp add: corsMiddleware_def evil_request_def example_request_def example_config_def
        startsWith_def requestLoggingMiddleware_def cspMiddleware_def reply_status_send_def
        log_event_def reply_header_def)
  from chain rejected have fin: "?final = ?s3" by simp
  from chain have hdr: "replyHeaders (reply ?final) ''X-Frame-Options'' = Some ''DENY''"
    by blast
  from chain have disp: "handleRequest (registerSecurityMiddleware example_config)
      (\<lambda>request s. s\<lparr>requestLog := []\<rparr>) evil_request 0 initial_state =
      (if sent ?final then ?final else ?final\<lparr>requestLog := []\<rparr>)"
    by blast
  from rejected fin have "sent ?final" by simp
  with disp have d: "handleRequest (registerSecurityMiddleware example_config)
      (\<lambda>request s. s\<lparr>requestLog := []\<rparr>) evil_request 0 initial_state = ?final"
    by simp
  from st fin have st': "statusCode (reply ?final) = 403" by simp
  from lim fin have lim': "limits ?final = limits initial_state" by simp
  from start st' lim' hdr d show ?thesis by blast
qed

text \<open>
  C7 (amended). \<open>validateFilePath\<close> fails for every path whose normalized form contains
  \<open>..\<close> anywhere (as a segment or inside a name) or \<open>~\<close> anywhere (leading or not), and
  succeeds, returning the normalized path, for every non-empty path drawn only from the
  characters \<open>[A-Za-z0-9._/-]\<close> that does not contain \<open>..\<close>.
\<close>

theorem C7_validateFilePath:
  "((\<exists>pre post. normalize path = pre @ ''..'' @ post) \<or>
    (\<exists>pre post. normalize path = pre @ ''~'' @ post) \<longrightarrow>
      validateFilePath path = Inl PathTraversalDetected) \<and>
   (path \<noteq> [] \<and> list_all safe_path_char path \<and> \<not> includes_str path ''..'' \<longrightarrow>
      validateFilePath path = Inr (normalize path))"
proof (intro conjI impI)
  assume "(\<exists>pre post. normalize path = pre @ ''..'' @ post) \<or>
    (\<exists>pre post. normalize path = pre @ ''~'' @ post)"
  then have found: "includes_str (normalize path) ''..'' \<or> includes_str (normalize path) ''~''"
    by (simp only: includes_str_iff)
  then have "path \<noteq> []"
    by (auto simp: normalize_def)
  with found show "validateFilePath path = Inl PathTraversalDetected"
    by (auto simp: validateFilePath_def Let_def)
next
  assume a: "path \<noteq> [] \<and> list_all safe_path_char path \<and> \<not> includes_str path ''..''"
  have "\<not> includes_str path ''~''"
  proof
    assume "includes_str path ''~''"
    then obtain pre post where "path = pre @ ''~'' @ post"
      by (auto simp: includes_str_iff)
    then have "CHR ''~'' \<in> set path" by simp
    with a have "safe_path_char (CHR ''~'')" by (simp add: list_all_iff)
    then show False by (simp add: safe_path_char_def)
  qed
  with a show "validateFilePath path = Inr (normalize path)"
    by (simp add: validateFilePath_def normalize_def SAFE_PATH_PATTERN_def)
qed

theorem C7_validateFilePath_witness:
  "validateFilePath ''../etc/passwd'' = Inl PathTraversalDetected \<and>
   validateFilePath ''~/notes.txt'' = Inl PathTraversalDetected \<and>
   validateFilePath ''docs/read-me_v2.txt'' = Inr ''docs/read-me_v2.txt''"
proof -
  have 1: "normalize ''../etc/passwd'' = [] @ ''..'' @ ''/etc/passwd''"
    by (simp add: normalize_def)
  have 2: "normalize ''~/notes.txt'' = [] @ ''~'' @ ''/notes.txt''"
    by (simp add: normalize_def)
  have 3: "''docs/read-me_v2.txt'' \<noteq> [] \<and> list_all safe_path_char ''docs/read-me_v2.txt'' \<and>
      \<not> includes_str ''docs/read-me_v2.txt'' ''..''"
    by (simp add: safe_path_char_def startsWith_def)
  from 1 have e1: "validateFilePath ''../etc/passwd'' = Inl PathTraversalDetected"
    using C7_validateFilePath [of "''../etc/passwd''"] by blast
  from 2 have e2: "validateFilePath ''~/notes.txt'' = Inl PathTraversalDetected"
    using C7_validateFilePath [of "''~/notes.txt''"] by blast
  from 3 have "validateFilePath ''docs/read-me_v2.txt'' = Inr (normalize ''docs/read-me_v2.txt'')"
    using C7_validateFilePath [of "''docs/read-me_v2.txt''"] by blast
  then have e3: "validateFilePath ''docs/read-me_v2.txt'' = Inr ''docs/read-me_v2.txt''"
    by (simp add: normalize_def)
  from e1 e2 e3 show ?thesis by blast
qed

text \<open>
  C7 as stated promises success for every path drawn only from \<open>[A-Za-z0-9._/-]\<close>; the
  path \<open>a..b\<close> is such a path, has no \<open>..\<close> segment and no leading \<open>~\<close>, and is rejected.
\<close>

theorem C7_substring_counterexample:
  "list_all safe_path_char ''a..b'' \<and> validateFilePath ''a..b'' = Inl PathTraversalDetected"
  by (simp add: safe_path_char_def validateFilePath_def normalize_def startsWith_def)

text \<open>
  C8. \<open>validateUrl\<close> fails when the parsed scheme is outside \<open>allowedSchemes\<close> (as for
  \<open>ftp://example.com\<close> with \<open>{http, https}\<close>), fails when the parsed hostname is
  \<open>localhost\<close> or \<open>127.0.0.1\<close> or starts with \<open>192.168.\<close>, \<open>10.\<close> or \<open>172.\<close> (as for
  \<open>https://127.0.0.1/x\<close> and \<open>https://192.168.1.5/x\<close>), and otherwise succeeds and returns
  the parsed URL (as for \<open>https://example.com/x\<close>). The outcome is a function of the scheme
  and hostname strings alone.
\<close>

theorem C8_validateUrl:
  "(parse address = None \<longrightarrow> validateUrl parse address allowedSchemes = Inl (InvalidUrl ParseFailed)) \<and>
   (parse address = Some parsed \<and> remove1 (CHR '':'') (protocol parsed) \<notin> set allowedSchemes \<longrightarrow>
      validateUrl parse address allowedSchemes =
        Inl (InvalidUrl (SchemeNotAllowed (protocol parsed)))) \<and>
   (parse address = Some parsed \<and> remove1 (CHR '':'') (protocol parsed) \<in> set allowedSchemes \<and>
      (hostname parsed = ''localhost'' \<or> hostname parsed = ''127.0.0.1'' \<or>
       (\<exists>rest. hostname parsed = ''192.168.'' @ rest) \<or>
       (\<exists>rest. hostname parsed = ''10.'' @ rest) \<or>
       (\<exists>rest. hostname parsed = ''172.'' @ rest)) \<longrightarrow>
      validateUrl parse address allowedSchemes = Inl (InvalidUrl PrivateUrlNotAllowed)) \<and>
   (parse address = Some parsed \<and> remove1 (CHR '':'') (protocol parsed) \<in> set allowedSchemes \<and>
      hostname parsed \<noteq> ''localhost'' \<and> hostname parsed \<noteq> ''127.0.0.1'' \<and>
      \<not> startsWith (hostname parsed) ''192.168.'' \<and>
      \<not> startsWith (hostname parsed) ''10.'' \<and>
      \<not> startsWith (hostname parsed) ''172.'' \<longrightarrow>
      validateUrl parse address allowedSchemes = Inr parsed)"
  by (auto simp: validateUrl_def startsWith_iff)

theorem C8_validateUrl_witness:
  "validateUrl example_parser ''ftp://example.com'' [''http'', ''https''] =
     Inl (InvalidUrl (SchemeNotAllowed ''ftp:'')) \<and>
   validateUrl example_parser ''https://127.0.0.1/x'' [''http'', ''https''] =
     Inl (InvalidUrl PrivateUrlNotAllowed) \<and>
   validateUrl example_parser ''https://192.168.1.5/x'' [''http'', ''https''] =
     Inl (InvalidUrl PrivateUrlNotAllowed) \<and>
   validateUrl example_parser ''https://example.com/x'' [''http'', ''https''] =
     Inr \<lparr>href = ''https://example.com/x'', protocol = ''https:'', hostname = ''example.com''\<rparr> \<and>
   validateUrl example_parser ''not a url'' [''http'', ''https''] = Inl (InvalidUrl ParseFailed)"
  using
    C8_validateUrl [of example_parser "''ftp://example.com''" "[''http'', ''https'']"
      "\<lparr>href = ''ftp://example.com/'', protocol = ''ftp:'', hostname = ''example.com''\<rparr>"]
    C8_validateUrl [of example_parser "''https://127.0.0.1/x''" "[''http'', ''https'']"
      "\<lparr>href = ''https://127.0.0.1/x'', protocol = ''https:'', hostname = ''127.0.0.1''\<rparr>"]
    C8_validateUrl [of example_parser "''https://192.168.1.5/x''" "[''http'', ''https'']"
      "\<lparr>href = ''https://192.168.1.5/x'', protocol = ''https:'', hostname = ''192.168.1.5''\<rparr>"]
    C8_validateUrl [of example_parser "''https://example.com/x''" "[''http'', ''https'']"
      "\<lparr>href = ''https://example.com/x'', protocol = ''https:'', hostname = ''example.com''\<rparr>"]
    C8_validateUrl [of example_parser "''not a url''" "[''http'', ''https'']"]
  by (simp add: example_parser_def startsWith_def)

text \<open>
  C9 (amended). Constructing the startup configuration with authentication enabled but no
  API key does not fail: \<open>createConfig\<close> never checks \<open>apiKey\<close>. Whenever \<open>NODE_ENV\<close>,
  \<open>PORT\<close>, \<open>MAX_REQUESTS_PER_MINUTE\<close> and \<open>LOG_LEVEL\<close> are unset or valid it returns a
  configuration, with \<open>enableAuth\<close> true exactly when \<open>ENABLE_AUTH\<close> is \<open>"true"\<close> and \<open>apiKey\<close>
  as found in the environment, undefined included; whether it fails does not depend on
  \<open>API_KEY\<close>. Under a configuration with authentication enabled and no key,
  \<open>authMiddleware\<close> rejects every request on the protected prefix: with 401 when the header
  is missing or does not start with \<open>Bearer \<close>, with 403 for every bearer token.
\<close>

theorem C9_config_without_key:
  "((env ''NODE_ENV'' = None \<or>
       (\<exists>v. env ''NODE_ENV'' = Some v \<and> v \<in> set [''development'', ''production'', ''test''])) \<and>
    (env ''PORT'' = None \<or>
       (\<exists>v n. env ''PORT'' = Some v \<and> toNumber v = Some n \<and> 1 \<le> n \<and> n \<le> 65535)) \<and>
    (env ''MAX_REQUESTS_PER_MINUTE'' = None \<or>
       (\<exists>v n. env ''MAX_REQUESTS_PER_MINUTE'' = Some v \<and> toNumber v = Some n)) \<and>
    (env ''LOG_LEVEL'' = None \<or>
       (\<exists>v. env ''LOG_LEVEL'' = Some v \<and>
            v \<in> set [''trace'', ''debug'', ''info'', ''warn'', ''error'', ''fatal''])) \<longrightarrow>
    (\<exists>c'. createConfig toNumber packageJson env = Inr c' \<and>
          enableAuth c' = (env ''ENABLE_AUTH'' = Some ''true'') \<and> apiKey c' = env ''API_KEY'')) \<and>
   (createConfig toNumber packageJson env = Inr c \<longrightarrow>
      enableAuth c = (env ''ENABLE_AUTH'' = Some ''true'') \<and> apiKey c = env ''API_KEY'') \<and>
   isl (createConfig toNumber packageJson (env(''API_KEY'' := k))) =
     isl (createConfig toNumber packageJson env) \<and>
   (enableAuth c \<and> apiKey c = None \<and> startsWith (url request) ''/mcp'' \<longrightarrow>
      (headers request ''authorization'' = None \<or>
       (\<exists>h. headers request ''authorization'' = Some h \<and> \<not> startsWith h ''Bearer '') \<longrightarrow>
         sent (authMiddleware request c now s) \<and>
         statusCode (reply (authMiddleware request c now s)) = 401) \<and>
      ((\<exists>token. headers request ''authorization'' = Some (''Bearer '' @ token)) \<longrightarrow>
         sent (authMiddleware request c now s) \<and>
         statusCode (reply (authMiddleware request c now s)) = 403))"
proof (intro conjI impI)
  assume "(env ''NODE_ENV'' = None \<or>
       (\<exists>v. env ''NODE_ENV'' = Some v \<and> v \<in> set [''development'', ''production'', ''test''])) \<and>
    (env ''PORT'' = None \<or>
       (\<exists>v n. env ''PORT'' = Some v \<and> toNumber v = Some n \<and> 1 \<le> n \<and> n \<le> 65535)) \<and>
    (env ''MAX_REQUESTS_PER_MINUTE'' = None \<or>
       (\<exists>v n. env ''MAX_REQUESTS_PER_MINUTE'' = Some v \<and> toNumber v = Some n)) \<and>
    (env ''LOG_LEVEL'' = None \<or>
       (\<exists>v. env ''LOG_LEVEL'' = Some v \<and>
            v \<in> set [''trace'', ''debug'', ''info'', ''warn'', ''error'', ''fatal'']))"
  then show "\<exists>c'. createConfig toNumber packageJson env = Inr c' \<and>
      enableAuth c' = (env ''ENABLE_AUTH'' = Some ''true'') \<and> apiKey c' = env ''API_KEY''"
    by (intro createConfig_succeeds) blast+
next
  assume "createConfig toNumber packageJson env = Inr c"
  then show "enableAuth c = (env ''ENABLE_AUTH'' = Some ''true'')" and "apiKey c = env ''API_KEY''"
    using createConfig_Inr [of toNumber packageJson env c, unfolded enable_auth_flag] by blast+
next
  show "isl (createConfig toNumber packageJson (env(''API_KEY'' := k))) =
      isl (createConfig toNumber packageJson env)"
    by (rule createConfig_apiKey_irrelevant)
next
  assume a: "enableAuth c \<and> apiKey c = None \<and> startsWith (url request) ''/mcp''"
    and "headers request ''authorization'' = None \<or>
      (\<exists>h. headers request ''authorization'' = Some h \<and> \<not> startsWith h ''Bearer '')"
  then show "sent (authMiddleware request c now s)"
    and "statusCode (reply (authMiddleware request c now s)) = 401"
    using auth_without_key_401 [of c request now s] by blast+
next
  assume a: "enableAuth c \<and> apiKey c = None \<and> startsWith (url request) ''/mcp''"
    and "\<exists>token. headers request ''authorization'' = Some (''Bearer '' @ token)"
  then show "sent (authMiddleware request c now s)"
    and "statusCode (reply (authMiddleware request c now s)) = 403"
    using auth_without_key_403 [of c request now s] by blast+
qed

theorem C9_config_without_key_witness:
  "(\<exists>c. createConfig no_number example_package [''ENABLE_AUTH'' \<mapsto> ''true''] = Inr c \<and>
        enableAuth c \<and> apiKey c = None \<and>
        statusCode (reply (authMiddleware (example_request ''/mcp'' Map.empty) c 0
          initial_state)) = 401 \<and>
        statusCode (reply (authMiddleware
          (example_request ''/mcp'' [''authorization'' \<mapsto> ''Bearer secret123'']) c 0
          initial_state)) = 403) \<and>
   (\<exists>c. createConfig example_number example_package
          [''ENABLE_AUTH'' \<mapsto> ''true'', ''PORT'' \<mapsto> ''3000'', ''LOG_LEVEL'' \<mapsto> ''warn''] = Inr c \<and>
        enableAuth c \<and> apiKey c = None)"
proof -
  let ?env = "[''ENABLE_AUTH'' \<mapsto> ''true'']"
  let ?env2 = "[''ENABLE_AUTH'' \<mapsto> ''true'', ''PORT'' \<mapsto> ''3000'', ''LOG_LEVEL'' \<mapsto> ''warn'']"
  let ?r1 = "example_request ''/mcp'' Map.empty"
  let ?r2 = "example_request ''/mcp'' [''authorization'' \<mapsto> ''Bearer secret123'']"
  have "\<exists>c'. createConfig no_number example_package ?env = Inr c' \<and>
      enableAuth c' = (?env ''ENABLE_AUTH'' = Some ''true'') \<and> apiKey c' = ?env ''API_KEY''"
    by (rule C9_config_without_key [of ?env no_number example_package,
          THEN conjunct1, THEN mp]) simp
  then obtain c where c: "createConfig no_number example_package ?env = Inr c"
    "enableAuth c" "apiKey c = None"
    by auto
  have u: "startsWith (url ?r1) ''/mcp''" "startsWith (url ?r2) ''/mcp''"
    "headers ?r1 ''authorization'' = None"
    "headers ?r2 ''authorization'' = Some (''Bearer '' @ ''secret123'')"
    by (simp_all add: example_request_def startsWith_def)
  from c u C9_config_without_key [of ?env no_number example_package c None ?r1 0 initial_state]
  have s1: "statusCode (reply (authMiddleware ?r1 c 0 initial_state)) = 401"
    by blast
  from c u C9_config_without_key [of ?env no_number example_package c None ?r2 0 initial_state]
  have s2: "statusCode (reply (authMiddleware ?r2 c 0 initial_state)) = 403"
    by blast
  have "\<exists>c'. createConfig example_number example_package ?env2 = Inr c' \<and>
      enableAuth c' = (?env2 ''ENABLE_AUTH'' = Some ''true'') \<and> apiKey c' = ?env2 ''API_KEY''"
    by (rule C9_config_without_key [of ?env2 example_number example_package,
          THEN conjunct1, THEN mp]) (simp add: example_number_def)
  then obtain c2 where "createConfig example_number example_package ?env2 = Inr c2"
    "enableAuth c2" "apiKey c2 = None"
    by auto
  with c s1 s2 show ?thesis by blast
qed

text \<open>
  C9 as stated: with \<open>ENABLE_AUTH=true\<close> and no \<open>API_KEY\<close>, construction fails. It
  returns a configuration with \<open>enableAuth = true\<close> and \<open>apiKey\<close> undefined.
\<close>

theorem C9_missing_key_counterexample:
  "createConfig no_number example_package [''ENABLE_AUTH'' \<mapsto> ''true''] =
     Inr \<lparr>enableAuth = True, apiKey = None, enableRateLimit = True,
          maxRequestsPerMinute = 100, enableRequestLogging = True, trustedOrigins = [],
          port = 8080, host = ''localhost'', nodeEnv = ''development'', logLevel = ''debug'',
          mcpEndpoint = ''/mcp'', healthEndpoint = ''/health'', version = ''1.0.0'',
          name = ''fastify-mcp-server-boilerplate''\<rparr>"
  by (simp add: createConfig_def Let_def env_or_def getEnvVar_def getEnvNumber_def
      example_package_def)

text \<open>
  C3. The claim: every call of \<open>sanitizeInput\<close> on a string that contains a denylisted
  pattern fails and returns no cleaned value. The code at the failing input: the pattern
  objects keep \<open>lastIndex\<close> between calls, so the second call on \<open>hello;\<close> starts the
  search for a shell metacharacter behind the \<open>;\<close>, finds nothing, strips the \<open>;\<close> and
  returns \<open>hello\<close>; the fourth call on \<open>rm -rf /; cat /etc/passwd\<close> returns a cleaned
  string as well.
\<close>

theorem C3_repeated_call_strips_and_succeeds:
  "sanitizeInput_calls [''hello;'', ''hello;''] 50 DANGEROUS_PATTERNS =
     [Inl DangerousInput, Inr ''hello''] \<and>
   sanitizeInput_calls (replicate 4 ''rm -rf /; cat /etc/passwd'') 1000 DANGEROUS_PATTERNS =
     [Inl DangerousInput, Inl DangerousInput, Inl DangerousInput, Inr ''rm -rf  cat etcpasswd'']"
  by code_simp

end
